theory Spec2Isabelle
  imports Complex_Main "HOL-Library.Word" "HOL-Library.Multiset"
begin

unbundle bit_operations_syntax

section \<open>Data model (Vehicle.h)\<close>

text \<open>
  Machine integers keep the widths of the C++ declarations: \<open>uint8_t\<close>, \<open>uint16_t\<close>,
  \<open>unsigned int\<close> (32 bits) and \<open>std::size_t\<close> (64 bits, LP64) are words, so every
  \<open>static_cast\<close> of the source is a \<open>ucast\<close> that truncates.  A time point is the
  signed 64-bit count of microseconds that \<open>std::chrono\<close> stores.
\<close>

type_synonym byte = "8 word"
type_synonym size_t = "64 word"
type_synonym timestamp = "64 word"

text \<open>
  An exit of the process (\<open>exit(EXIT_FAILURE)\<close>) and an access the C++ standard
  leaves undefined (a copy that leaves its source or destination array, a signed
  overflow) are results of the model, not gaps in it.
\<close>

datatype error = Exit_Failure | Undefined_Behaviour

datatype signature_scheme = ECDSA | FALCON

fun scheme_tag :: "signature_scheme \<Rightarrow> 8 word" where
  "scheme_tag ECDSA = 0"
| "scheme_tag FALCON = 1"

record pqc_options =
  scheme :: signature_scheme
  falcon_fragment_size :: size_t
  compression :: string

definition MAX_SIGNATURE_FRAGMENT_SIZE :: size_t where
  "MAX_SIGNATURE_FRAGMENT_SIZE = 512"

definition MAX_SIGNATURE_TOTAL_SIZE :: size_t where
  "MAX_SIGNATURE_TOTAL_SIZE = 1536"

text \<open>
  The BSM is five \<open>float\<close>s; the core only stores and hashes them, so each is kept as
  its 32-bit image.  The certificate is an opaque byte image.  The headers that fix the
  sizes of these images are not among the sources; a value-initialised certificate is
  written as the empty image, and every path overwrites it before it is read.
\<close>

record bsm =
  latitude :: "32 word"
  longitude :: "32 word"
  elevation :: "32 word"
  speed :: "32 word"
  heading :: "32 word"

record header_info =
  timestamp :: timestamp

record tbs_data =
  message :: bsm
  headerInfo :: header_info

record signed_data =
  tbsData :: tbs_data
  cert :: "byte list"

record ieee1609dot2data_ecdsa_explicit =
  signedData :: signed_data
  certificate_signature :: "byte list"

record spdu_fragment =
  vehicle_id :: "8 word"
  sequence_number :: "32 word"
  llc_dsap_ssap :: "32 word"
  llc_control :: "8 word"
  llc_type :: "32 word"
  wsmp_n_subtype_opt_version :: "8 word"
  wsmp_n_tpid :: "8 word"
  wsmp_t_header_length_and_psid :: "8 word"
  wsmp_t_length :: "8 word"
  signature_scheme :: "8 word"
  fragment_index :: "16 word"
  fragment_count :: "16 word"
  signature_buffer_length :: "32 word"
  fragment_length :: "32 word"
  signature_offset :: "32 word"
  certificate_signature_buffer_length :: "32 word"
  data :: ieee1609dot2data_ecdsa_explicit
  signature_fragment :: "byte list"

definition zero_bytes :: "nat \<Rightarrow> byte list" where
  "zero_bytes n = replicate n 0"

definition zero_data :: ieee1609dot2data_ecdsa_explicit where
  "zero_data =
     \<lparr> signedData =
         \<lparr> tbsData =
             \<lparr> message = \<lparr> latitude = 0, longitude = 0, elevation = 0, speed = 0, heading = 0 \<rparr>,
               headerInfo = \<lparr> timestamp = 0 \<rparr> \<rparr>,
           cert = [] \<rparr>,
       certificate_signature = zero_bytes 72 \<rparr>"

text \<open>\<open>spdu_fragment{}\<close>: the default member initialisers of the struct.\<close>

definition spdu_fragment_init :: spdu_fragment where
  "spdu_fragment_init =
     \<lparr> vehicle_id = 0, sequence_number = 0, llc_dsap_ssap = 43690, llc_control = 3,
       llc_type = 35036, wsmp_n_subtype_opt_version = 3, wsmp_n_tpid = 0,
       wsmp_t_header_length_and_psid = 32, wsmp_t_length = 0, signature_scheme = 0,
       fragment_index = 0, fragment_count = 1, signature_buffer_length = 0,
       fragment_length = 0, signature_offset = 0, certificate_signature_buffer_length = 0,
       data = zero_data,
       signature_fragment = zero_bytes (unat MAX_SIGNATURE_FRAGMENT_SIZE) \<rparr>"

section \<open>Copies between buffers\<close>

text \<open>
  \<open>std::copy_n(src, n, dst + off)\<close> and \<open>std::memcpy(dst, src + off, n)\<close>.  Both read
  \<open>n\<close> elements and write \<open>n\<close> elements; a read or a write outside its array is
  undefined behaviour.
\<close>

definition copy_n :: "byte list \<Rightarrow> nat \<Rightarrow> byte list \<Rightarrow> nat \<Rightarrow> error + byte list" where
  "copy_n src n dst off =
     (if n \<le> length src \<and> off + n \<le> length dst
      then Inr (take off dst @ take n src @ drop (off + n) dst)
      else Inl Undefined_Behaviour)"

definition memcpy :: "byte list \<Rightarrow> byte list \<Rightarrow> nat \<Rightarrow> nat \<Rightarrow> error + byte list" where
  "memcpy dst src off n =
     (if off + n \<le> length src \<and> n \<le> length dst
      then Inr (take n (drop off src) @ drop n dst)
      else Inl Undefined_Behaviour)"

section \<open>The primitives and the stores the core is given\<close>

text \<open>
  SHA-256, ECDSA and Falcon are outside the sources (\<open>v2vcrypto.h\<close>), as are the byte
  layout of \<open>tbsData\<close>, the files keys are read from and the two kinematic formulas of
  \<open>bsm.h\<close>.  They are parameters: every theorem below holds for all of them.  Signing is
  randomised, so a signing primitive also receives the number of signing calls made
  before it.  A key store returns \<open>None\<close> where the loader of the source calls
  \<open>exit(EXIT_FAILURE)\<close>.
\<close>

record primitives =
  sha256sum :: "byte list \<Rightarrow> byte list"
  bytes_of_tbsData :: "tbs_data \<Rightarrow> byte list"
  ECDSA_size :: "byte list \<Rightarrow> 32 word"
  ecdsa_sign :: "nat \<Rightarrow> byte list \<Rightarrow> byte list \<Rightarrow> byte list"
  ecdsa_verify :: "byte list \<Rightarrow> byte list \<Rightarrow> 32 word \<Rightarrow> byte list \<Rightarrow> bool"
  falcon_sign :: "nat \<Rightarrow> byte list \<Rightarrow> byte list \<Rightarrow> byte list"
  falcon_verify :: "byte list \<Rightarrow> byte list \<Rightarrow> byte list \<Rightarrow> bool"
  load_key :: "int \<Rightarrow> bool \<Rightarrow> byte list option"
  load_falcon_public_key :: "int \<Rightarrow> byte list option"
  calculate_speed_kph :: "32 word \<Rightarrow> 32 word \<Rightarrow> 32 word \<Rightarrow> 32 word \<Rightarrow> int \<Rightarrow> 32 word"
  calculate_heading :: "32 word \<Rightarrow> 32 word \<Rightarrow> 32 word \<Rightarrow> 32 word \<Rightarrow> 32 word"

section \<open>Sender (Vehicle.cpp)\<close>

datatype sign_call =
  Ecdsa_sign_call "byte list" "byte list"
| Falcon_sign_call "byte list" "byte list"

text \<open>
  The members of \<open>Vehicle\<close> the signing path reads and writes, and the calls it has
  made to the signing primitives, oldest first.  \<open>member_timestep\<close> is the member
  \<open>timestep\<close>, the trace that \<open>load_trace\<close> read: one row of \<open>float\<close>s per line of
  the file.
\<close>

record vehicle =
  number :: "8 word"
  pqc :: pqc_options
  private_ec_key :: "byte list"
  cert_private_ec_key :: "byte list"
  vehicle_certificate_ecdsa :: "byte list"
  member_certificate_signature :: "byte list"
  certificate_buffer_length :: "32 word"
  falcon_private_key :: "byte list"
  member_timestep :: "32 word list list"
  sign_calls :: "sign_call list"

definition clamp_fragment_size :: "size_t \<Rightarrow> size_t \<Rightarrow> size_t" where
  "clamp_fragment_size requested maximum =
     (if requested = 0 then maximum else min requested maximum)"

text \<open>
  \<open>this->timestep[i][j]\<close>: both subscripts are unchecked, so a row or a column that the
  trace does not have is undefined behaviour (a negative \<open>int\<close> becomes a huge
  \<open>size_t\<close>).
\<close>

definition trace_at :: "32 word list list \<Rightarrow> int \<Rightarrow> nat \<Rightarrow> error + 32 word" where
  "trace_at rows i j =
     (if 0 \<le> i \<and> nat i < length rows \<and> j < length (rows ! nat i)
      then Inr (rows ! nat i ! j)
      else Inl Undefined_Behaviour)"

text \<open>
  \<open>generate_bsm\<close>.  Position and elevation are row \<open>timestep\<close> of the trace; speed
  and heading are 0 at timestep 0 and otherwise computed from the previous row.
\<close>

definition generate_bsm :: "primitives \<Rightarrow> vehicle \<Rightarrow> int \<Rightarrow> error + bsm" where
  "generate_bsm P v timestep =
     (case trace_at (member_timestep v) timestep 0 of
        Inl e \<Rightarrow> Inl e
      | Inr lat \<Rightarrow>
     (case trace_at (member_timestep v) timestep 1 of
        Inl e \<Rightarrow> Inl e
      | Inr lon \<Rightarrow>
     (case trace_at (member_timestep v) timestep 2 of
        Inl e \<Rightarrow> Inl e
      | Inr ele \<Rightarrow>
          if timestep \<noteq> 0
          then
            (case trace_at (member_timestep v) (timestep - 1) 0 of
               Inl e \<Rightarrow> Inl e
             | Inr lat0 \<Rightarrow>
            (case trace_at (member_timestep v) (timestep - 1) 1 of
               Inl e \<Rightarrow> Inl e
             | Inr lon0 \<Rightarrow>
                 Inr \<lparr> latitude = lat, longitude = lon, elevation = ele,
                       speed = calculate_speed_kph P lat0 lat lon0 lon 100,
                       heading = calculate_heading P lat0 lat lon0 lon \<rparr>))
          else Inr \<lparr> latitude = lat, longitude = lon, elevation = ele,
                     speed = 0, heading = 0 \<rparr>)))"

text \<open>
  \<open>generate_spdu\<close>.  \<open>now\<close> is the reading of the system clock.  The certificate is
  hashed and signed here, into the member array of 72 bytes, and the signature is then
  copied into the SPDU.
\<close>

definition generate_spdu ::
  "primitives \<Rightarrow> vehicle \<Rightarrow> timestamp \<Rightarrow> 32 word \<Rightarrow> int \<Rightarrow> error + (spdu_fragment \<times> vehicle)" where
  "generate_spdu P v now seq timestep =
     (case generate_bsm P v timestep of
        Inl e \<Rightarrow> Inl e
      | Inr new_bsm \<Rightarrow>
     (let spdu0 = spdu_fragment_init
            \<lparr> vehicle_id := number v, sequence_number := seq,
              signature_fragment := zero_bytes (unat MAX_SIGNATURE_FRAGMENT_SIZE) \<rparr>;
          tbs = \<lparr> message = new_bsm, headerInfo = \<lparr> timestamp = now \<rparr> \<rparr>;
          sd = \<lparr> tbsData = tbs, cert = vehicle_certificate_ecdsa v \<rparr>;
          certificate_digest = sha256sum P (cert sd);
          sg = ecdsa_sign P (length (sign_calls v)) certificate_digest (cert_private_ec_key v);
          calls = sign_calls v @ [Ecdsa_sign_call certificate_digest (cert_private_ec_key v)]
      in case copy_n sg (length sg) (member_certificate_signature v) 0 of
           Inl e \<Rightarrow> Inl e
         | Inr member \<Rightarrow>
             (case copy_n member (length sg) (certificate_signature zero_data) 0 of
                Inl e \<Rightarrow> Inl e
              | Inr cs \<Rightarrow>
                  Inr (spdu0 \<lparr> certificate_signature_buffer_length := of_nat (length sg),
                               data := \<lparr> signedData = sd, certificate_signature = cs \<rparr> \<rparr>,
                       v \<lparr> member_certificate_signature := member,
                           certificate_buffer_length := of_nat (length sg),
                           sign_calls := calls \<rparr>))))"

text \<open>
  \<open>sign_message_ecdsa\<close>.  The vector has \<open>ECDSA_size\<close> zero bytes; the primitive
  writes the signature at its front and reports its length; the whole vector is copied
  over the zeroed fragment array.
\<close>

definition sign_message_ecdsa ::
  "primitives \<Rightarrow> vehicle \<Rightarrow> spdu_fragment \<Rightarrow> error + (spdu_fragment \<times> vehicle)" where
  "sign_message_ecdsa P v spdu =
     (let hash = sha256sum P (bytes_of_tbsData P (tbsData (signedData (data spdu))));
          signature_length0 = ECDSA_size P (private_ec_key v)
      in if (ucast signature_length0 :: size_t) > MAX_SIGNATURE_FRAGMENT_SIZE then Inl Exit_Failure
         else
           let sg = ecdsa_sign P (length (sign_calls v)) hash (private_ec_key v);
               v' = v \<lparr> sign_calls := sign_calls v @ [Ecdsa_sign_call hash (private_ec_key v)] \<rparr>
           in case copy_n sg (length sg) (zero_bytes (unat signature_length0)) 0 of
                Inl e \<Rightarrow> Inl e
              | Inr signature \<Rightarrow>
                  (case copy_n signature (length signature)
                          (zero_bytes (unat MAX_SIGNATURE_FRAGMENT_SIZE)) 0 of
                     Inl e \<Rightarrow> Inl e
                   | Inr frag \<Rightarrow>
                       Inr (spdu \<lparr> signature_buffer_length := of_nat (length sg),
                                   fragment_count := 1,
                                   fragment_index := 0,
                                   fragment_length := of_nat (length sg),
                                   signature_offset := 0,
                                   signature_fragment := frag \<rparr>, v')))"

text \<open>
  The body of the loop of \<open>sign_message_falcon\<close> for one \<open>idx\<close>: a copy of the
  template with the fragmentation fields and the slice of the signature.
\<close>

definition falcon_fragment ::
  "spdu_fragment \<Rightarrow> byte list \<Rightarrow> size_t \<Rightarrow> size_t \<Rightarrow> size_t \<Rightarrow> error + spdu_fragment" where
  "falcon_fragment spdu signature fragment_size fragment_cnt idx =
     (let signature_len = (of_nat (length signature) :: size_t);
          offset = (ucast (idx * fragment_size) :: 32 word);
          remaining = signature_len - ucast offset;
          bytes_this_fragment = min fragment_size remaining
      in case memcpy (zero_bytes (unat MAX_SIGNATURE_FRAGMENT_SIZE)) signature
                (unat offset) (unat bytes_this_fragment) of
           Inl e \<Rightarrow> Inl e
         | Inr frag \<Rightarrow>
             Inr (spdu \<lparr> signature_scheme := scheme_tag FALCON,
                         fragment_count := ucast fragment_cnt,
                         fragment_index := ucast idx,
                         signature_buffer_length := ucast signature_len,
                         signature_offset := offset,
                         fragment_length := ucast bytes_this_fragment,
                         signature_fragment := frag \<rparr>))"

text \<open>The loop \<open>for (idx = 0; idx < fragment_count; ++idx)\<close> with its \<open>push_back\<close>.\<close>

fun push_fragments :: "(size_t \<Rightarrow> error + spdu_fragment) \<Rightarrow> nat list \<Rightarrow> error + spdu_fragment list" where
  "push_fragments body [] = Inr []"
| "push_fragments body (i # is) =
     (case body (of_nat i) of
        Inl e \<Rightarrow> Inl e
      | Inr f \<Rightarrow> (case push_fragments body is of Inl e \<Rightarrow> Inl e | Inr fs \<Rightarrow> Inr (f # fs)))"

text \<open>
  \<open>sign_message_falcon\<close>.  The primitive fills a vector of \<open>MAX_SIGNATURE_TOTAL_SIZE\<close>
  bytes and reports the length, to which the vector is then resized.
\<close>

definition sign_message_falcon ::
  "primitives \<Rightarrow> vehicle \<Rightarrow> spdu_fragment \<Rightarrow> error + (spdu_fragment list \<times> vehicle)" where
  "sign_message_falcon P v spdu =
     (if falcon_private_key v = [] then Inl Exit_Failure
      else
        let msg = bytes_of_tbsData P (tbsData (signedData (data spdu)));
            sg = falcon_sign P (length (sign_calls v)) msg (falcon_private_key v);
            v' = v \<lparr> sign_calls := sign_calls v @ [Falcon_sign_call msg (falcon_private_key v)] \<rparr>
        in case copy_n sg (length sg) (zero_bytes (unat MAX_SIGNATURE_TOTAL_SIZE)) 0 of
             Inl e \<Rightarrow> Inl e
           | Inr buf \<Rightarrow>
               let signature = take (length sg) buf;
                   signature_len = (of_nat (length sg) :: size_t);
                   fragment_size = clamp_fragment_size (falcon_fragment_size (pqc v))
                                     MAX_SIGNATURE_FRAGMENT_SIZE;
                   fragment_cnt = (signature_len + fragment_size - 1) div fragment_size
               in case push_fragments (falcon_fragment spdu signature fragment_size fragment_cnt)
                         [0 ..< unat fragment_cnt] of
                    Inl e \<Rightarrow> Inl e
                  | Inr fragments \<Rightarrow> Inr (fragments, v'))"

definition prepare_signed_fragments ::
  "primitives \<Rightarrow> vehicle \<Rightarrow> timestamp \<Rightarrow> 32 word \<Rightarrow> int \<Rightarrow> error + (spdu_fragment list \<times> vehicle)" where
  "prepare_signed_fragments P v now seq timestep =
     (case generate_spdu P v now seq timestep of
        Inl e \<Rightarrow> Inl e
      | Inr (base0, v1) \<Rightarrow>
          let base = base0 \<lparr> signature_scheme := scheme_tag (scheme (pqc v1)) \<rparr>
          in if scheme (pqc v1) = ECDSA
             then (case sign_message_ecdsa P v1 base of
                     Inl e \<Rightarrow> Inl e
                   | Inr (spdu1, v2) \<Rightarrow> Inr ([spdu1], v2))
             else sign_message_falcon P v1 base)"

section \<open>Transmitter loop (Vehicle.cpp, \<open>Vehicle::transmit\<close>)\<close>

text \<open>
  What the loop reads from outside: the configured loss rate, the values the
  distribution returns (the k-th value drawn in the run is \<open>draw k\<close>), whether the k-th
  \<open>sendto\<close> of the run succeeds, and the clock.  What it changes: the number of draws
  taken, the two counters, the datagrams handed to the socket (oldest first) and the
  vehicle.  The two sleeps take time and change nothing else.
\<close>

record transmitter =
  draws_taken :: nat
  dropped_fragments :: nat
  resent_fragments :: nat
  datagrams_sent :: "spdu_fragment list"
  veh :: vehicle

text \<open>
  The first pass over the fragments.  \<open>drop_rate > 0.0 && dist(rng) < drop_rate\<close>
  draws only when the rate is positive.  A failing \<open>sendto\<close> ends the process.
\<close>

fun first_pass ::
  "real \<Rightarrow> (nat \<Rightarrow> real) \<Rightarrow> (nat \<Rightarrow> bool) \<Rightarrow> transmitter \<Rightarrow> spdu_fragment list \<Rightarrow>
   spdu_fragment list \<Rightarrow> error + (transmitter \<times> spdu_fragment list)" where
  "first_pass drop_rate draw sendto_ok st resend_queue [] = Inr (st, resend_queue)"
| "first_pass drop_rate draw sendto_ok st resend_queue (fragment # rest) =
     (if drop_rate > 0
      then
        (if draw (draws_taken st) < drop_rate
         then first_pass drop_rate draw sendto_ok
                (st \<lparr> draws_taken := draws_taken st + 1,
                      dropped_fragments := dropped_fragments st + 1 \<rparr>)
                (resend_queue @ [fragment]) rest
         else if sendto_ok (length (datagrams_sent st))
         then first_pass drop_rate draw sendto_ok
                (st \<lparr> draws_taken := draws_taken st + 1,
                      datagrams_sent := datagrams_sent st @ [fragment] \<rparr>)
                resend_queue rest
         else Inl Exit_Failure)
      else if sendto_ok (length (datagrams_sent st))
      then first_pass drop_rate draw sendto_ok
             (st \<lparr> datagrams_sent := datagrams_sent st @ [fragment] \<rparr>) resend_queue rest
      else Inl Exit_Failure)"

text \<open>The resend pass: every queued fragment is sent; nothing is drawn.\<close>

fun resend_pass :: "(nat \<Rightarrow> bool) \<Rightarrow> transmitter \<Rightarrow> spdu_fragment list \<Rightarrow> error + transmitter" where
  "resend_pass sendto_ok st [] = Inr st"
| "resend_pass sendto_ok st (fragment # rest) =
     (if sendto_ok (length (datagrams_sent st))
      then resend_pass sendto_ok
             (st \<lparr> datagrams_sent := datagrams_sent st @ [fragment],
                   resent_fragments := resent_fragments st + 1 \<rparr>) rest
      else Inl Exit_Failure)"

text \<open>The two passes over the fragments of one message.\<close>

definition transmit_fragments ::
  "real \<Rightarrow> (nat \<Rightarrow> real) \<Rightarrow> (nat \<Rightarrow> bool) \<Rightarrow> transmitter \<Rightarrow> spdu_fragment list \<Rightarrow> error + transmitter" where
  "transmit_fragments drop_rate draw sendto_ok st fragments =
     (case first_pass drop_rate draw sendto_ok st [] fragments of
        Inl e \<Rightarrow> Inl e
      | Inr (st1, resend_queue) \<Rightarrow>
          if resend_queue \<noteq> [] then resend_pass sendto_ok st1 resend_queue else Inr st1)"

text \<open>
  The body of \<open>for (int i = 0; i < num_msgs; i++)\<close> and the loop.  \<open>clock i\<close> is the
  reading of the system clock while message \<open>i\<close> is assembled.
\<close>

definition transmit_message ::
  "primitives \<Rightarrow> real \<Rightarrow> (nat \<Rightarrow> real) \<Rightarrow> (nat \<Rightarrow> bool) \<Rightarrow> (int \<Rightarrow> timestamp) \<Rightarrow>
   transmitter \<Rightarrow> int \<Rightarrow> error + transmitter" where
  "transmit_message P drop_rate draw sendto_ok clock st i =
     (case prepare_signed_fragments P (veh st) (clock i) (of_int i) i of
        Inl e \<Rightarrow> Inl e
      | Inr (fragments, v') \<Rightarrow>
          transmit_fragments drop_rate draw sendto_ok (st \<lparr> veh := v' \<rparr>) fragments)"

fun transmit_loop ::
  "primitives \<Rightarrow> real \<Rightarrow> (nat \<Rightarrow> real) \<Rightarrow> (nat \<Rightarrow> bool) \<Rightarrow> (int \<Rightarrow> timestamp) \<Rightarrow>
   transmitter \<Rightarrow> int list \<Rightarrow> error + transmitter" where
  "transmit_loop P drop_rate draw sendto_ok clock st [] = Inr st"
| "transmit_loop P drop_rate draw sendto_ok clock st (i # rest) =
     (case transmit_message P drop_rate draw sendto_ok clock st i of
        Inl e \<Rightarrow> Inl e
      | Inr st' \<Rightarrow> transmit_loop P drop_rate draw sendto_ok clock st' rest)"

text \<open>
  The loss rate: 0 when \<open>V2X_PACKET_LOSS_RATE\<close> is not set, else its value brought
  into the interval from 0 to 1.
\<close>

definition drop_rate_of :: "real option \<Rightarrow> real" where
  "drop_rate_of loss_env =
     (case loss_env of
        None \<Rightarrow> 0
      | Some x \<Rightarrow> (if x < 0 then 0 else if x > 1 then 1 else x))"

definition transmit ::
  "primitives \<Rightarrow> real option \<Rightarrow> (nat \<Rightarrow> real) \<Rightarrow> (nat \<Rightarrow> bool) \<Rightarrow> (int \<Rightarrow> timestamp) \<Rightarrow>
   vehicle \<Rightarrow> int \<Rightarrow> error + transmitter" where
  "transmit P loss_env draw sendto_ok clock v num_msgs =
     transmit_loop P (drop_rate_of loss_env) draw sendto_ok clock
       \<lparr> draws_taken = 0, dropped_fragments = 0, resent_fragments = 0,
         datagrams_sent = [], veh = v \<rparr>
       [0 .. num_msgs - 1]"

text \<open>
  The loss model in the words of the specification, for comparison with the loop above:
  a fragment is lost for good when it is dropped on the first pass and dropped again on
  its retry, each drop decided by its own draw against the loss rate.  \<open>u1 i\<close> and
  \<open>u2 i\<close> are the two draws of fragment \<open>i\<close>.
\<close>

definition spec_fragment_delivered :: "real \<Rightarrow> (nat \<Rightarrow> real) \<Rightarrow> (nat \<Rightarrow> real) \<Rightarrow> nat \<Rightarrow> bool" where
  "spec_fragment_delivered loss_rate u1 u2 i = (\<not> (u1 i < loss_rate \<and> u2 i < loss_rate))"

definition spec_spdu_delivered :: "real \<Rightarrow> (nat \<Rightarrow> real) \<Rightarrow> (nat \<Rightarrow> real) \<Rightarrow> nat \<Rightarrow> bool" where
  "spec_spdu_delivered loss_rate u1 u2 N = list_all (spec_fragment_delivered loss_rate u1 u2) [0 ..< N]"

section \<open>Verifier (Vehicle.cpp, \<open>Vehicle::verify_message\<close>)\<close>

text \<open>
  \<open>received_time - timestamp\<close> is a subtraction of two signed 64-bit counts of
  microseconds; outside the range of the type it is undefined.
\<close>

definition elapsed_us :: "timestamp \<Rightarrow> timestamp \<Rightarrow> error + int" where
  "elapsed_us received_time sent_time =
     (let d = sint received_time - sint sent_time
      in if - (2 ^ 63) \<le> d \<and> d < 2 ^ 63 then Inr d else Inl Undefined_Behaviour)"

text \<open>
  The count \<open>d\<close> of microseconds is converted to a \<open>double\<close> count of milliseconds,
  \<open>double(d) / 1000.0\<close>, and compared with 30000.  Both roundings are monotone and
  exact at \<open>d = 30000000\<close>, and 29999.999 is further from 30000 than a rounding step,
  so the comparison holds exactly when \<open>d < 30000000\<close>.
\<close>

definition recent_us :: "int \<Rightarrow> bool" where
  "recent_us d = (d < 30000000)"

text \<open>The three local results of \<open>verify_message\<close>, named as in the source.\<close>

definition cert_result :: "primitives \<Rightarrow> spdu_fragment \<Rightarrow> byte list \<Rightarrow> bool" where
  "cert_result P spdu verification_cert_private_ec_key =
     ecdsa_verify P (sha256sum P (cert (signedData (data spdu))))
       (certificate_signature (data spdu))
       (certificate_signature_buffer_length spdu)
       verification_cert_private_ec_key"

definition sig_result ::
  "primitives \<Rightarrow> spdu_fragment \<Rightarrow> byte list \<Rightarrow> int \<Rightarrow> byte list \<Rightarrow> error + bool" where
  "sig_result P spdu assembled_signature vid verification_private_ec_key =
     (let hash = sha256sum P (bytes_of_tbsData P (tbsData (signedData (data spdu))))
      in if signature_scheme spdu = scheme_tag ECDSA
         then Inr (ecdsa_verify P hash assembled_signature (signature_buffer_length spdu)
                     verification_private_ec_key)
         else (case load_falcon_public_key P vid of
                 None \<Rightarrow> Inl Exit_Failure
               | Some public_key \<Rightarrow>
                   Inr (falcon_verify P (bytes_of_tbsData P (tbsData (signedData (data spdu))))
                          assembled_signature public_key)))"

definition verify_message ::
  "primitives \<Rightarrow> spdu_fragment \<Rightarrow> byte list \<Rightarrow> timestamp \<Rightarrow> int \<Rightarrow> error + bool" where
  "verify_message P spdu assembled_signature received_time vid =
     (case load_key P vid False of
        None \<Rightarrow> Inl Exit_Failure
      | Some verification_private_ec_key \<Rightarrow>
          (case load_key P vid True of
             None \<Rightarrow> Inl Exit_Failure
           | Some verification_cert_private_ec_key \<Rightarrow>
               (case sig_result P spdu assembled_signature vid verification_private_ec_key of
                  Inl e \<Rightarrow> Inl e
                | Inr sig_ok \<Rightarrow>
                    (case elapsed_us received_time
                            (timestamp (headerInfo (tbsData (signedData (data spdu))))) of
                       Inl e \<Rightarrow> Inl e
                     | Inr d \<Rightarrow>
                         Inr (cert_result P spdu verification_cert_private_ec_key
                              \<and> sig_ok \<and> recent_us d)))))"

section \<open>Receiver and reassembly (Vehicle.cpp, \<open>Vehicle::receive\<close>)\<close>

record PendingMessage =
  template_fragment :: spdu_fragment
  signature_buffer :: "byte list"
  fragments_received :: "bool list"
  first_fragment_time :: timestamp

definition PendingMessage_init :: PendingMessage where
  "PendingMessage_init =
     \<lparr> template_fragment = spdu_fragment_init, signature_buffer = [],
       fragments_received = [], first_fragment_time = 0 \<rparr>"

definition make_message_key :: "8 word \<Rightarrow> 32 word \<Rightarrow> 64 word" where
  "make_message_key vid seq = push_bit 32 (ucast vid) OR ucast seq"

text \<open>
  The locals of \<open>receive\<close> that outlive one iteration, with what it prints for each
  completed SPDU (the template and the verdict) and what it sends to the GUI socket.
\<close>

record receiver =
  pending_messages :: "64 word \<rightharpoonup> PendingMessage"
  first_fragment_seen :: bool
  run_first_fragment_time :: timestamp
  last_completion_time :: timestamp
  completed_messages :: int
  printed :: "(spdu_fragment \<times> bool) list"
  gui_datagrams :: "(bsm \<times> bool \<times> 8 word) list"

text \<open>\<open>pending_messages[key]\<close>: an absent key gets a value-initialised entry.\<close>

definition lookup_entry :: "(64 word \<rightharpoonup> PendingMessage) \<Rightarrow> 64 word \<Rightarrow> PendingMessage" where
  "lookup_entry m key = (case m key of None \<Rightarrow> PendingMessage_init | Some entry \<Rightarrow> entry)"

text \<open>Lines 279 to 287: the entry is set up when its signature buffer is empty.\<close>

definition init_entry :: "PendingMessage \<Rightarrow> spdu_fragment \<Rightarrow> timestamp \<Rightarrow> PendingMessage" where
  "init_entry entry incoming receive_time =
     (if signature_buffer entry = []
      then \<lparr> template_fragment =
               incoming \<lparr> fragment_index := 0, fragment_length := 0,
                          signature_fragment := zero_bytes (unat MAX_SIGNATURE_FRAGMENT_SIZE) \<rparr>,
             signature_buffer = zero_bytes (unat (signature_buffer_length incoming)),
             fragments_received = replicate (unat (fragment_count incoming)) False,
             first_fragment_time = receive_time \<rparr>
      else entry)"

text \<open>
  Lines 289 to 300: the slice is copied and the index marked when the index is in range,
  not yet marked, and the slice fits the buffer.  The sum is taken in \<open>std::size_t\<close>.
\<close>

definition store_fragment :: "PendingMessage \<Rightarrow> spdu_fragment \<Rightarrow> error + PendingMessage" where
  "store_fragment entry incoming =
     (if unat (fragment_index incoming) < length (fragments_received entry)
      then
        (if \<not> fragments_received entry ! unat (fragment_index incoming)
         then
           (let offset = (ucast (signature_offset incoming) :: size_t);
                len = (ucast (fragment_length incoming) :: size_t)
            in if unat (offset + len) \<le> length (signature_buffer entry)
               then
                 (case copy_n (signature_fragment incoming) (unat len)
                         (signature_buffer entry) (unat offset) of
                    Inl e \<Rightarrow> Inl e
                  | Inr buf \<Rightarrow>
                      Inr (entry \<lparr> signature_buffer := buf,
                                   fragments_received :=
                                     (fragments_received entry)
                                       [unat (fragment_index incoming) := True] \<rparr>))
               else Inr entry)
         else Inr entry)
      else Inr entry)"

text \<open>Lines 302 to 306: the template takes these fields from every datagram.\<close>

definition update_template :: "PendingMessage \<Rightarrow> spdu_fragment \<Rightarrow> PendingMessage" where
  "update_template entry incoming =
     entry \<lparr> template_fragment :=
       (template_fragment entry)
         \<lparr> data := data incoming,
           signature_buffer_length := signature_buffer_length incoming,
           certificate_signature_buffer_length := certificate_signature_buffer_length incoming,
           signature_scheme := signature_scheme incoming,
           fragment_count := fragment_count incoming \<rparr> \<rparr>"

definition complete_entry :: "PendingMessage \<Rightarrow> bool" where
  "complete_entry entry = list_all (\<lambda>received. received) (fragments_received entry)"

text \<open>Lines 279 to 306 together: what one datagram does to the entry of its key.\<close>

definition update_entry ::
  "PendingMessage \<Rightarrow> spdu_fragment \<Rightarrow> timestamp \<Rightarrow> error + PendingMessage" where
  "update_entry entry incoming receive_time =
     (case store_fragment (init_entry entry incoming receive_time) incoming of
        Inl e \<Rightarrow> Inl e
      | Inr entry' \<Rightarrow> Inr (update_template entry' incoming))"

text \<open>Lines 271 to 274: the instant of the first datagram of the run is remembered.\<close>

definition note_first_fragment :: "receiver \<Rightarrow> timestamp \<Rightarrow> receiver" where
  "note_first_fragment st receive_time =
     (if \<not> first_fragment_seen st
      then st \<lparr> first_fragment_seen := True, run_first_fragment_time := receive_time \<rparr>
      else st)"

text \<open>
  One iteration of the loop, from the receive time on.  An incomplete entry is stored
  back and the loop goes on; a complete one is verified, shown, counted and erased.
\<close>

definition receive_datagram ::
  "primitives \<Rightarrow> bool \<Rightarrow> receiver \<Rightarrow> spdu_fragment \<Rightarrow> timestamp \<Rightarrow> error + receiver" where
  "receive_datagram P gui st incoming receive_time =
     (let st1 = note_first_fragment st receive_time;
          key = make_message_key (vehicle_id incoming) (sequence_number incoming)
      in case update_entry (lookup_entry (pending_messages st1) key) incoming receive_time of
           Inl e \<Rightarrow> Inl e
         | Inr entry \<Rightarrow>
             if \<not> complete_entry entry
             then Inr (st1 \<lparr> pending_messages := (pending_messages st1)(key \<mapsto> entry) \<rparr>)
             else
               (case verify_message P (template_fragment entry) (signature_buffer entry)
                       receive_time (uint (vehicle_id incoming)) of
                  Inl e \<Rightarrow> Inl e
                | Inr valid_spdu \<Rightarrow>
                    Inr (st1 \<lparr> pending_messages := (pending_messages st1)(key := None),
                               last_completion_time := receive_time,
                               completed_messages := completed_messages st1 + 1,
                               printed := printed st1 @ [(template_fragment entry, valid_spdu)],
                               gui_datagrams :=
                                 (if gui
                                  then gui_datagrams st1 @
                                    [(message (tbsData (signedData (data (template_fragment entry)))),
                                      valid_spdu, vehicle_id incoming)]
                                  else gui_datagrams st1) \<rparr>)))"

text \<open>
  The loop \<open>while (completed_messages < num_msgs)\<close> over the datagrams that arrive,
  each with its receive time; \<open>None\<close> is a failing \<open>recvfrom\<close>.  When no datagram is
  left the receiver waits in \<open>recvfrom\<close>, and the state it waits in is returned.
\<close>

fun receive_loop ::
  "primitives \<Rightarrow> bool \<Rightarrow> int \<Rightarrow> receiver \<Rightarrow> (spdu_fragment \<times> timestamp) option list \<Rightarrow> error + receiver" where
  "receive_loop P gui num_msgs st [] = Inr st"
| "receive_loop P gui num_msgs st (arrival # rest) =
     (if completed_messages st < num_msgs
      then (case arrival of
              None \<Rightarrow> Inl Exit_Failure
            | Some (incoming, receive_time) \<Rightarrow>
                (case receive_datagram P gui st incoming receive_time of
                   Inl e \<Rightarrow> Inl e
                 | Inr st' \<Rightarrow> receive_loop P gui num_msgs st' rest))
      else Inr st)"

definition receiver_init :: receiver where
  "receiver_init =
     \<lparr> pending_messages = Map.empty, first_fragment_seen = False,
       run_first_fragment_time = 0, last_completion_time = 0, completed_messages = 0,
       printed = [], gui_datagrams = [] \<rparr>"

section \<open>An instance of the primitives for concrete runs\<close>

text \<open>
  Small stand-ins for the primitives, so that the theorems below can be run on concrete
  datagrams.  A signature here is the signed bytes followed by the key.
\<close>

definition toy_primitives :: primitives where
  "toy_primitives =
     \<lparr> sha256sum = (\<lambda>b. take 32 b),
       bytes_of_tbsData = (\<lambda>t. [ucast (timestamp (headerInfo t))]),
       ECDSA_size = (\<lambda>k. 72),
       ecdsa_sign = (\<lambda>n h k. h @ k),
       ecdsa_verify = (\<lambda>h s l k. take (unat l) s = h @ k),
       falcon_sign = (\<lambda>n m k. m @ k),
       falcon_verify = (\<lambda>m s k. s = m @ k),
       load_key = (\<lambda>n c. Some [if c then 1 else 2]),
       load_falcon_public_key = (\<lambda>n. Some [3]),
       calculate_speed_kph = (\<lambda>lat0 lat lon0 lon interval. lat - lat0),
       calculate_heading = (\<lambda>lat0 lat lon0 lon. lon - lon0) \<rparr>"

text \<open>A completed ECDSA SPDU whose two signatures verify under the stand-ins.\<close>

definition signed_spdu :: spdu_fragment where
  "signed_spdu =
     spdu_fragment_init
       \<lparr> certificate_signature_buffer_length := 1,
         signature_buffer_length := 2,
         data := zero_data \<lparr> certificate_signature := [1] \<rparr> \<rparr>"

text \<open>
  The same SPDU with the header timestamp set to the least time point there is,
  \<open>-2\<^sup>6\<^sup>3\<close> microseconds, and with a certificate signature that does not verify.
\<close>

definition stale_spdu :: spdu_fragment where
  "stale_spdu =
     spdu_fragment_init
       \<lparr> certificate_signature_buffer_length := 1,
         signature_buffer_length := 2,
         data := \<lparr> signedData =
                    \<lparr> tbsData =
                        \<lparr> message = \<lparr> latitude = 0, longitude = 0, elevation = 0,
                                        speed = 0, heading = 0 \<rparr>,
                          headerInfo = \<lparr> timestamp = 9223372036854775808 \<rparr> \<rparr>,
                      cert = [] \<rparr>,
                  certificate_signature = [1] \<rparr> \<rparr>"

definition forged_certificate_spdu :: spdu_fragment where
  "forged_certificate_spdu = signed_spdu \<lparr> data := zero_data \<lparr> certificate_signature := [9] \<rparr> \<rparr>"

definition falcon_signed_spdu :: spdu_fragment where
  "falcon_signed_spdu = signed_spdu \<lparr> signature_scheme := scheme_tag FALCON \<rparr>"

definition toy_vehicle :: vehicle where
  "toy_vehicle =
     \<lparr> number = 0,
       pqc = \<lparr> scheme = FALCON, falcon_fragment_size = 2, compression = ''none'' \<rparr>,
       private_ec_key = [2], cert_private_ec_key = [1], vehicle_certificate_ecdsa = [],
       member_certificate_signature = zero_bytes 72, certificate_buffer_length = 0,
       falcon_private_key = [3, 4], member_timestep = [[42, 77, 100], [43, 79, 100]],
       sign_calls = [] \<rparr>"

definition idle_transmitter :: "vehicle \<Rightarrow> transmitter" where
  "idle_transmitter v =
     \<lparr> draws_taken = 0, dropped_fragments = 0, resent_fragments = 0,
       datagrams_sent = [], veh = v \<rparr>"

definition toy_ecdsa_vehicle :: vehicle where
  "toy_ecdsa_vehicle =
     toy_vehicle \<lparr> pqc := \<lparr> scheme = ECDSA, falcon_fragment_size = 256, compression = ''none'' \<rparr> \<rparr>"

text \<open>
  A datagram that declares a signature of 1000 bytes carried whole by one fragment.
\<close>

definition oversized_fragment :: spdu_fragment where
  "oversized_fragment =
     spdu_fragment_init \<lparr> signature_buffer_length := 1000, fragment_length := 1000 \<rparr>"






section \<open>Notions used to state the theorems\<close>

text \<open>
  The fragments of a message that the first pass queues and those it sends, read off the
  draws: fragment number \<open>j\<close> of the message meets draw number \<open>k + j\<close>, where \<open>k\<close>
  draws were taken before the message.
\<close>

definition dropped_on_first_pass ::
  "real \<Rightarrow> (nat \<Rightarrow> real) \<Rightarrow> nat \<Rightarrow> spdu_fragment list \<Rightarrow> spdu_fragment list" where
  "dropped_on_first_pass drop_rate draw k fragments =
     map fst (filter (\<lambda>(f, j). 0 < drop_rate \<and> draw j < drop_rate)
                (zip fragments [k ..< k + length fragments]))"

definition sent_on_first_pass ::
  "real \<Rightarrow> (nat \<Rightarrow> real) \<Rightarrow> nat \<Rightarrow> spdu_fragment list \<Rightarrow> spdu_fragment list" where
  "sent_on_first_pass drop_rate draw k fragments =
     map fst (filter (\<lambda>(f, j). \<not> (0 < drop_rate \<and> draw j < drop_rate))
                (zip fragments [k ..< k + length fragments]))"

text \<open>
  The fragment number \<open>i\<close> that the specification describes for a signature \<open>sg\<close>,
  a fragment size \<open>k\<close> and a fragment count \<open>c\<close>: the template with the scheme tag,
  the fragmentation fields and the zero-padded slice.
\<close>

definition falcon_slice :: "spdu_fragment \<Rightarrow> byte list \<Rightarrow> nat \<Rightarrow> nat \<Rightarrow> nat \<Rightarrow> spdu_fragment" where
  "falcon_slice spdu sg k c i =
     spdu \<lparr> signature_scheme := scheme_tag FALCON,
            fragment_count := of_nat c,
            fragment_index := of_nat i,
            signature_buffer_length := of_nat (length sg),
            signature_offset := of_nat (i * k),
            fragment_length := of_nat (min k (length sg - i * k)),
            signature_fragment :=
              take k (drop (i * k) sg) @ zero_bytes (512 - min k (length sg - i * k)) \<rparr>"

text \<open>
  The certificate signature that \<open>generate_spdu\<close> obtains from the primitive when it
  assembles an SPDU in vehicle state \<open>v\<close>.
\<close>

definition assembly_certificate_signature :: "primitives \<Rightarrow> vehicle \<Rightarrow> byte list" where
  "assembly_certificate_signature P v =
     ecdsa_sign P (length (sign_calls v)) (sha256sum P (vehicle_certificate_ecdsa v))
       (cert_private_ec_key v)"

text \<open>
  What a sequence of datagrams does to one reassembly entry: lines 279 to 306 of the
  receive loop, once per datagram, in the order of arrival.
\<close>

fun update_entries :: "PendingMessage \<Rightarrow> (spdu_fragment \<times> timestamp) list \<Rightarrow> error + PendingMessage" where
  "update_entries entry [] = Inr entry"
| "update_entries entry ((incoming, receive_time) # rest) =
     (case update_entry entry incoming receive_time of
        Inl e \<Rightarrow> Inl e
      | Inr entry' \<Rightarrow> update_entries entry' rest)"

text \<open>
  The entry of a Falcon SPDU of which the fragments with index in \<open>J\<close> have arrived,
  the first of them being fragment \<open>i0\<close> at time \<open>t0\<close>: the slices with index in
  \<open>J\<close> are in place, the rest of the buffer is zero.
\<close>

definition partial_entry ::
  "spdu_fragment \<Rightarrow> byte list \<Rightarrow> nat \<Rightarrow> nat \<Rightarrow> nat \<Rightarrow> timestamp \<Rightarrow> nat set \<Rightarrow> PendingMessage" where
  "partial_entry spdu sg k c i0 t0 J =
     \<lparr> template_fragment =
         (falcon_slice spdu sg k c i0)
           \<lparr> fragment_index := 0, fragment_length := 0,
             signature_fragment := zero_bytes (unat MAX_SIGNATURE_FRAGMENT_SIZE) \<rparr>,
       signature_buffer = map (\<lambda>p. if p div k \<in> J then sg ! p else 0) [0 ..< length sg],
       fragments_received = map (\<lambda>i. i \<in> J) [0 ..< c],
       first_fragment_time = t0 \<rparr>"

text \<open>
  The receiver state in which \<open>entry\<close> is pending under \<open>key\<close>, reached from \<open>st\<close>
  by datagrams of that key of which the first arrived at \<open>t0\<close>.
\<close>

definition reassembling :: "receiver \<Rightarrow> 64 word \<Rightarrow> PendingMessage \<Rightarrow> timestamp \<Rightarrow> receiver" where
  "reassembling st key entry t0 =
     (note_first_fragment st t0) \<lparr> pending_messages := (pending_messages st)(key \<mapsto> entry) \<rparr>"

section \<open>The verdict of the verifier\<close>

lemma verify_message_loaded:
  assumes "load_key P vid False = Some k" and "load_key P vid True = Some ck"
    and "sig_result P spdu S vid k = Inr sig_ok"
    and "- (2 ^ 63) \<le> sint t - sint (timestamp (headerInfo (tbsData (signedData (data spdu)))))"
    and "sint t - sint (timestamp (headerInfo (tbsData (signedData (data spdu))))) < 2 ^ 63"
  shows "verify_message P spdu S t vid =
     Inr (cert_result P spdu ck \<and> sig_ok \<and>
          sint t - sint (timestamp (headerInfo (tbsData (signedData (data spdu))))) < 30000 * 1000)"
  using assms by (simp add: verify_message_def elapsed_us_def recent_us_def Let_def)

lemma verify_message_result:
  assumes "load_key P vid False = Some k" and "load_key P vid True = Some ck"
    and "sig_result P spdu S vid k = Inr sig_ok"
  shows "verify_message P spdu S t vid =
     (if - (2 ^ 63) \<le> sint t - sint (timestamp (headerInfo (tbsData (signedData (data spdu)))))
         \<and> sint t - sint (timestamp (headerInfo (tbsData (signedData (data spdu))))) < 2 ^ 63
      then Inr (ecdsa_verify P (sha256sum P (cert (signedData (data spdu))))
                  (certificate_signature (data spdu)) (certificate_signature_buffer_length spdu) ck
                \<and> sig_ok
                \<and> sint t - sint (timestamp (headerInfo (tbsData (signedData (data spdu)))))
                     < 30000 * 1000)
      else Inl Undefined_Behaviour)"
  using assms
  by (simp add: verify_message_def elapsed_us_def recent_us_def cert_result_def Let_def)

text \<open>
  C2.  The claim does not hold of the code.  Where the receive time minus the header
  timestamp fits the signed 64-bit count of microseconds, the verdict is the conjunction
  of the certificate check, the payload check and the recency test, and the recency test
  is \<open>difference < 30000 ms\<close>: the SPDU below that both checks accept is valid at
  29999.999 ms and invalid at 30000 ms, and an SPDU with a forged certificate signature
  or a wrong payload signature is invalid.  But the header timestamp comes from the datagram, and the difference is
  taken without a check of its range: for the SPDU with the least timestamp, received
  one second after the epoch, both signature checks pass and the SPDU is more than
  30000 ms old, yet the subtraction overflows and the verifier does not report it
  invalid.
\<close>

theorem stale_spdu_overflows_recency:
  "load_key toy_primitives 0 False = Some [2] \<and> load_key toy_primitives 0 True = Some [1]
   \<and> ecdsa_verify toy_primitives (sha256sum toy_primitives (cert (signedData (data stale_spdu))))
        (certificate_signature (data stale_spdu)) (certificate_signature_buffer_length stale_spdu) [1]
   \<and> signature_scheme stale_spdu = scheme_tag ECDSA
   \<and> ecdsa_verify toy_primitives
        (sha256sum toy_primitives
           (bytes_of_tbsData toy_primitives (tbsData (signedData (data stale_spdu)))))
        [0, 2] (signature_buffer_length stale_spdu) [2]
   \<and> 30000 * 1000
        \<le> sint (1000000 :: timestamp)
            - sint (timestamp (headerInfo (tbsData (signedData (data stale_spdu)))))
   \<and> verify_message toy_primitives stale_spdu [0, 2] 1000000 0 = Inl Undefined_Behaviour
   \<and> verify_message toy_primitives stale_spdu [0, 2] 1000000 0 \<noteq> Inr False
   \<and> verify_message toy_primitives signed_spdu [0, 2] 29999999 0 = Inr True
   \<and> verify_message toy_primitives signed_spdu [0, 2] 30000000 0 = Inr False
   \<and> verify_message toy_primitives forged_certificate_spdu [0, 2] 29999999 0 = Inr False
   \<and> verify_message toy_primitives signed_spdu [0, 3] 29999999 0 = Inr False"
proof -
  have ts: "sint (timestamp (headerInfo (tbsData (signedData (data stale_spdu))))) = - (2 ^ 63)"
    by (simp add: stale_spdu_def)
  have k: "load_key toy_primitives 0 False = Some [2]" "load_key toy_primitives 0 True = Some [1]"
    by (simp_all add: toy_primitives_def)
  have c: "ecdsa_verify toy_primitives (sha256sum toy_primitives (cert (signedData (data stale_spdu))))
        (certificate_signature (data stale_spdu)) (certificate_signature_buffer_length stale_spdu) [1]"
    by (simp add: toy_primitives_def stale_spdu_def)
  have e: "signature_scheme stale_spdu = scheme_tag ECDSA"
    by (simp add: stale_spdu_def spdu_fragment_init_def)
  have g: "ecdsa_verify toy_primitives
        (sha256sum toy_primitives
           (bytes_of_tbsData toy_primitives (tbsData (signedData (data stale_spdu)))))
        [0, 2] (signature_buffer_length stale_spdu) [2]"
    by (simp add: toy_primitives_def stale_spdu_def)
  have s: "sig_result toy_primitives stale_spdu [0, 2] 0 [2] = Inr True"
    using e g by (simp add: sig_result_def)
  have old: "30000 * 1000
        \<le> sint (1000000 :: timestamp)
            - sint (timestamp (headerInfo (tbsData (signedData (data stale_spdu)))))"
    unfolding ts by simp
  have u: "verify_message toy_primitives stale_spdu [0, 2] 1000000 0 = Inl Undefined_Behaviour"
    unfolding verify_message_result [OF k s] ts by simp
  have s1: "sig_result toy_primitives signed_spdu [0, 2] 0 [2] = Inr True"
    "sig_result toy_primitives forged_certificate_spdu [0, 2] 0 [2] = Inr True"
    by (simp_all add: sig_result_def toy_primitives_def forged_certificate_spdu_def signed_spdu_def
        spdu_fragment_init_def zero_data_def zero_bytes_def)
  have t1: "sint (timestamp (headerInfo (tbsData (signedData (data signed_spdu))))) = 0"
    "sint (timestamp (headerInfo (tbsData (signedData (data forged_certificate_spdu))))) = 0"
    by (simp_all add: forged_certificate_spdu_def signed_spdu_def zero_data_def)
  have c1: "ecdsa_verify toy_primitives (sha256sum toy_primitives (cert (signedData (data signed_spdu))))
        (certificate_signature (data signed_spdu)) (certificate_signature_buffer_length signed_spdu) [1]"
    "\<not> ecdsa_verify toy_primitives
        (sha256sum toy_primitives (cert (signedData (data forged_certificate_spdu))))
        (certificate_signature (data forged_certificate_spdu))
        (certificate_signature_buffer_length forged_certificate_spdu) [1]"
    by (simp_all add: toy_primitives_def forged_certificate_spdu_def signed_spdu_def
        spdu_fragment_init_def zero_data_def zero_bytes_def)
  have a: "verify_message toy_primitives signed_spdu [0, 2] 29999999 0 = Inr True"
    unfolding verify_message_result [OF k s1(1)] t1 using c1 by simp
  have b: "verify_message toy_primitives signed_spdu [0, 2] 30000000 0 = Inr False"
    unfolding verify_message_result [OF k s1(1)] t1 by simp
  have f: "verify_message toy_primitives forged_certificate_spdu [0, 2] 29999999 0 = Inr False"
    unfolding verify_message_result [OF k s1(2)] t1 using c1 by simp
  have s2: "sig_result toy_primitives signed_spdu [0, 3] 0 [2] = Inr False"
    by (simp add: sig_result_def toy_primitives_def signed_spdu_def
        spdu_fragment_init_def zero_data_def zero_bytes_def)
  have h: "verify_message toy_primitives signed_spdu [0, 3] 29999999 0 = Inr False"
    unfolding verify_message_result [OF k s2] t1 by simp
  show ?thesis using k c e g old u a b f h by simp
qed

text \<open>
  C4.  With the keys loaded, the payload check of a completed SPDU is the ECDSA
  verification of the reassembled signature buffer against the SHA-256 digest of the
  bytes of tbsData when the declared scheme tag is ECDSA, and the Falcon verification of
  the buffer against the bytes of tbsData themselves when the tag is FALCON; this is the
  middle conjunct of the verdict.
\<close>

theorem payload_check_by_scheme:
  assumes "load_key P vid False = Some k" and "load_key P vid True = Some ck"
    and "- (2 ^ 63) \<le> sint t - sint (timestamp (headerInfo (tbsData (signedData (data spdu)))))"
    and "sint t - sint (timestamp (headerInfo (tbsData (signedData (data spdu))))) < 2 ^ 63"
  shows "(signature_scheme spdu = scheme_tag ECDSA \<longrightarrow>
            sig_result P spdu S vid k =
              Inr (ecdsa_verify P (sha256sum P (bytes_of_tbsData P (tbsData (signedData (data spdu)))))
                     S (signature_buffer_length spdu) k)
            \<and> verify_message P spdu S t vid =
              Inr (cert_result P spdu ck
                   \<and> ecdsa_verify P (sha256sum P (bytes_of_tbsData P (tbsData (signedData (data spdu)))))
                       S (signature_buffer_length spdu) k
                   \<and> sint t - sint (timestamp (headerInfo (tbsData (signedData (data spdu))))) < 30000 * 1000))
       \<and> (signature_scheme spdu = scheme_tag FALCON \<longrightarrow> load_falcon_public_key P vid = Some pk \<longrightarrow>
            sig_result P spdu S vid k =
              Inr (falcon_verify P (bytes_of_tbsData P (tbsData (signedData (data spdu)))) S pk)
            \<and> verify_message P spdu S t vid =
              Inr (cert_result P spdu ck
                   \<and> falcon_verify P (bytes_of_tbsData P (tbsData (signedData (data spdu)))) S pk
                   \<and> sint t - sint (timestamp (headerInfo (tbsData (signedData (data spdu))))) < 30000 * 1000))"
proof (intro conjI impI)
  assume e: "signature_scheme spdu = scheme_tag ECDSA"
  then show s: "sig_result P spdu S vid k =
      Inr (ecdsa_verify P (sha256sum P (bytes_of_tbsData P (tbsData (signedData (data spdu)))))
             S (signature_buffer_length spdu) k)"
    by (simp add: sig_result_def)
  show "verify_message P spdu S t vid =
      Inr (cert_result P spdu ck
           \<and> ecdsa_verify P (sha256sum P (bytes_of_tbsData P (tbsData (signedData (data spdu)))))
               S (signature_buffer_length spdu) k
           \<and> sint t - sint (timestamp (headerInfo (tbsData (signedData (data spdu))))) < 30000 * 1000)"
    by (rule verify_message_loaded [OF assms(1,2) s assms(3,4)])
next
  assume f: "signature_scheme spdu = scheme_tag FALCON" and pk: "load_falcon_public_key P vid = Some pk"
  then show s: "sig_result P spdu S vid k =
      Inr (falcon_verify P (bytes_of_tbsData P (tbsData (signedData (data spdu)))) S pk)"
    by (simp add: sig_result_def)
  show "verify_message P spdu S t vid =
      Inr (cert_result P spdu ck
           \<and> falcon_verify P (bytes_of_tbsData P (tbsData (signedData (data spdu)))) S pk
           \<and> sint t - sint (timestamp (headerInfo (tbsData (signedData (data spdu))))) < 30000 * 1000)"
    by (rule verify_message_loaded [OF assms(1,2) s assms(3,4)])
qed

theorem payload_check_by_scheme_witness:
  "signature_scheme signed_spdu = scheme_tag ECDSA
   \<and> verify_message toy_primitives signed_spdu [0, 2] 5 0 = Inr True
   \<and> verify_message toy_primitives signed_spdu [0, 3] 5 0 = Inr False
   \<and> signature_scheme falcon_signed_spdu = scheme_tag FALCON
   \<and> verify_message toy_primitives falcon_signed_spdu [0, 3] 5 0 = Inr True
   \<and> verify_message toy_primitives falcon_signed_spdu [0, 2] 5 0 = Inr False"
proof -
  have k: "load_key toy_primitives 0 False = Some [2]" "load_key toy_primitives 0 True = Some [1]"
    by (simp_all add: toy_primitives_def)
  have pk: "load_falcon_public_key toy_primitives 0 = Some [3]"
    by (simp add: toy_primitives_def)
  have e: "signature_scheme signed_spdu = scheme_tag ECDSA"
    by (simp add: signed_spdu_def spdu_fragment_init_def)
  have f: "signature_scheme falcon_signed_spdu = scheme_tag FALCON"
    by (simp add: falcon_signed_spdu_def)
  have ts: "timestamp (headerInfo (tbsData (signedData (data signed_spdu)))) = 0"
    "timestamp (headerInfo (tbsData (signedData (data falcon_signed_spdu)))) = 0"
    by (simp_all add: falcon_signed_spdu_def signed_spdu_def zero_data_def)
  have c: "cert_result toy_primitives signed_spdu [1]" "cert_result toy_primitives falcon_signed_spdu [1]"
    by (simp_all add: cert_result_def toy_primitives_def falcon_signed_spdu_def signed_spdu_def
        spdu_fragment_init_def zero_data_def zero_bytes_def)
  have b: "bytes_of_tbsData toy_primitives (tbsData (signedData (data signed_spdu))) = [0]"
    "bytes_of_tbsData toy_primitives (tbsData (signedData (data falcon_signed_spdu))) = [0]"
    "signature_buffer_length signed_spdu = 2"
    by (simp_all add: toy_primitives_def falcon_signed_spdu_def signed_spdu_def zero_data_def)
  have v: "ecdsa_verify toy_primitives (sha256sum toy_primitives [0]) [0, 2] 2 [2]"
    "\<not> ecdsa_verify toy_primitives (sha256sum toy_primitives [0]) [0, 3] 2 [2]"
    "falcon_verify toy_primitives [0] [0, 3] [3]"
    "\<not> falcon_verify toy_primitives [0] [0, 2] [3]"
    by (simp_all add: toy_primitives_def)
  have 1: "verify_message toy_primitives signed_spdu [0, 2] 5 0 = Inr True"
    using payload_check_by_scheme [OF k, of 5 signed_spdu "[0, 2]" "[3]"] e c v by (simp add: ts b)
  have 2: "verify_message toy_primitives signed_spdu [0, 3] 5 0 = Inr False"
    using payload_check_by_scheme [OF k, of 5 signed_spdu "[0, 3]" "[3]"] e c v by (simp add: ts b)
  have 3: "verify_message toy_primitives falcon_signed_spdu [0, 3] 5 0 = Inr True"
    using payload_check_by_scheme [OF k, of 5 falcon_signed_spdu "[0, 3]" "[3]"] f pk c v by (simp add: ts b)
  have 4: "verify_message toy_primitives falcon_signed_spdu [0, 2] 5 0 = Inr False"
    using payload_check_by_scheme [OF k, of 5 falcon_signed_spdu "[0, 2]" "[3]"] f pk c v by (simp add: ts b)
  show ?thesis using e f 1 2 3 4 by simp
qed

section \<open>The transmitter's loss and retry\<close>

lemma resend_pass_all:
  assumes "\<forall>k. sendto_ok k"
  shows "resend_pass sendto_ok st q =
     Inr (st \<lparr> datagrams_sent := datagrams_sent st @ q,
               resent_fragments := resent_fragments st + length q \<rparr>)"
  using assms by (induction q arbitrary: st) simp_all

lemma zip_upt_Cons:
  "zip (f # fs) [k ..< k + length (f # fs)] = (f, k) # zip fs [Suc k ..< Suc k + length fs]"
  by (simp add: upt_conv_Cons del: upt_Suc)

lemma dropped_on_first_pass_Cons:
  "dropped_on_first_pass p draw k (f # fs) =
     (if 0 < p \<and> draw k < p then [f] else []) @ dropped_on_first_pass p draw (Suc k) fs"
  unfolding dropped_on_first_pass_def zip_upt_Cons by simp

lemma sent_on_first_pass_Cons:
  "sent_on_first_pass p draw k (f # fs) =
     (if 0 < p \<and> draw k < p then [] else [f]) @ sent_on_first_pass p draw (Suc k) fs"
  unfolding sent_on_first_pass_def zip_upt_Cons by simp

lemma first_pass_all:
  assumes ok: "\<forall>k. sendto_ok k"
  shows "first_pass drop_rate draw sendto_ok st q fragments =
     Inr (st \<lparr> draws_taken := draws_taken st + (if 0 < drop_rate then length fragments else 0),
               dropped_fragments := dropped_fragments st
                  + length (dropped_on_first_pass drop_rate draw (draws_taken st) fragments),
               datagrams_sent := datagrams_sent st
                  @ sent_on_first_pass drop_rate draw (draws_taken st) fragments \<rparr>,
          q @ dropped_on_first_pass drop_rate draw (draws_taken st) fragments)"
proof (induction fragments arbitrary: st q)
  case Nil
  show ?case by (simp add: dropped_on_first_pass_def sent_on_first_pass_def)
next
  case (Cons f fs)
  show ?case
  proof (cases "0 < drop_rate")
    case True
    note pos = True
    show ?thesis
    proof (cases "draw (draws_taken st) < drop_rate")
      case True
      with pos ok show ?thesis
        unfolding first_pass.simps Cons.IH
        by (simp add: dropped_on_first_pass_Cons sent_on_first_pass_Cons)
    next
      case False
      with pos ok show ?thesis
        unfolding first_pass.simps Cons.IH
        by (simp add: dropped_on_first_pass_Cons sent_on_first_pass_Cons)
    qed
  next
    case False
    have d: "dropped_on_first_pass drop_rate draw k xs = []" for k xs
      using False by (simp add: dropped_on_first_pass_def)
    have s: "sent_on_first_pass drop_rate draw k xs = xs" for k xs
      using False by (simp add: sent_on_first_pass_def)
    from False ok show ?thesis
      unfolding first_pass.simps Cons.IH by (simp add: d s)
  qed
qed

lemma mset_first_pass_split:
  "mset (sent_on_first_pass p draw k fs) + mset (dropped_on_first_pass p draw k fs) = mset fs"
proof (induction fs arbitrary: k)
  case Nil
  show ?case by (simp add: dropped_on_first_pass_def sent_on_first_pass_def)
next
  case (Cons f fs)
  from Cons [of "Suc k"] show ?case
    by (simp add: dropped_on_first_pass_Cons sent_on_first_pass_Cons)
qed

text \<open>
  C5, as the code has it.  When every \<open>sendto\<close> succeeds, the two passes over the
  fragments of a message hand every fragment to the socket exactly once: first the
  fragments whose draw was not below the loss rate, in order, then the queued ones, in
  order.  One value is drawn per fragment when the rate is positive and none during the
  resend pass, so a queued fragment is always sent on its retry; the counters of dropped
  and of resent fragments grow by the same number.
\<close>

theorem transmit_fragments_sends_all:
  assumes ok: "\<forall>k. sendto_ok k"
  shows "\<exists>st'. transmit_fragments drop_rate draw sendto_ok st fragments = Inr st'
      \<and> datagrams_sent st' = datagrams_sent st
           @ sent_on_first_pass drop_rate draw (draws_taken st) fragments
           @ dropped_on_first_pass drop_rate draw (draws_taken st) fragments
      \<and> mset (sent_on_first_pass drop_rate draw (draws_taken st) fragments
              @ dropped_on_first_pass drop_rate draw (draws_taken st) fragments) = mset fragments
      \<and> draws_taken st' = draws_taken st + (if 0 < drop_rate then length fragments else 0)
      \<and> dropped_fragments st' = dropped_fragments st
           + length (dropped_on_first_pass drop_rate draw (draws_taken st) fragments)
      \<and> resent_fragments st' = resent_fragments st
           + length (dropped_on_first_pass drop_rate draw (draws_taken st) fragments)"
proof -
  have m: "mset (sent_on_first_pass drop_rate draw (draws_taken st) fragments
              @ dropped_on_first_pass drop_rate draw (draws_taken st) fragments) = mset fragments"
    using mset_first_pass_split [of drop_rate draw "draws_taken st" fragments] by simp
  show ?thesis
  proof (cases "dropped_on_first_pass drop_rate draw (draws_taken st) fragments = []")
    case True
    with m show ?thesis
      by (simp add: transmit_fragments_def first_pass_all [OF ok])
  next
    case False
    with m show ?thesis
      by (simp add: transmit_fragments_def first_pass_all [OF ok] resend_pass_all [OF ok])
  qed
qed

text \<open>
  The claim as stated fails: with loss rate 1/2 and every draw equal to 1/4, the
  specification's model loses the only fragment of the SPDU for good (both of its draws
  are below the rate), while the loop draws once, queues the fragment and sends it.
\<close>

theorem second_loss_counterexample:
  "\<not> spec_spdu_delivered (1 / 2) (\<lambda>i. 1 / 4) (\<lambda>i. 1 / 4) 1
   \<and> transmit_fragments (1 / 2) (\<lambda>k. 1 / 4) (\<lambda>k. True) (idle_transmitter toy_vehicle) [spdu_fragment_init]
     = Inr ((idle_transmitter toy_vehicle)
              \<lparr> draws_taken := 1, dropped_fragments := 1, resent_fragments := 1,
                datagrams_sent := [spdu_fragment_init] \<rparr>)"
  by (simp add: spec_spdu_delivered_def spec_fragment_delivered_def transmit_fragments_def
      idle_transmitter_def)

theorem transmit_fragments_sends_all_witness:
  "(\<forall>k. (\<lambda>k. True) k)
   \<and> (\<exists>st'. transmit_fragments (1 / 2) (\<lambda>k. if k = 0 then 1 / 4 else 3 / 4) (\<lambda>k. True)
          (idle_transmitter toy_vehicle) [signed_spdu, spdu_fragment_init] = Inr st'
        \<and> datagrams_sent st' = [spdu_fragment_init, signed_spdu]
        \<and> draws_taken st' = 2 \<and> dropped_fragments st' = 1 \<and> resent_fragments st' = 1)"
proof -
  have d: "dropped_on_first_pass (1 / 2) (\<lambda>k. if k = 0 then 1 / 4 else 3 / 4) 0
             [signed_spdu, spdu_fragment_init] = [signed_spdu]"
    by (simp add: dropped_on_first_pass_def upt_conv_Cons)
  have s: "sent_on_first_pass (1 / 2) (\<lambda>k. if k = 0 then 1 / 4 else 3 / 4) 0
             [signed_spdu, spdu_fragment_init] = [spdu_fragment_init]"
    by (simp add: sent_on_first_pass_def upt_conv_Cons)
  have i: "draws_taken (idle_transmitter toy_vehicle) = 0"
    "dropped_fragments (idle_transmitter toy_vehicle) = 0"
    "resent_fragments (idle_transmitter toy_vehicle) = 0"
    "datagrams_sent (idle_transmitter toy_vehicle) = []"
    by (simp_all add: idle_transmitter_def)
  show ?thesis
    using transmit_fragments_sends_all [of "\<lambda>k. True" "1 / 2" "\<lambda>k. if k = 0 then 1 / 4 else 3 / 4"
        "idle_transmitter toy_vehicle" "[signed_spdu, spdu_fragment_init]"]
    by (simp add: d s i numeral_2_eq_2)
qed

section \<open>Fragmentation at the signer\<close>

lemma clamp_fragment_size_bounds:
  "0 < unat (clamp_fragment_size r MAX_SIGNATURE_FRAGMENT_SIZE) \<and>
   unat (clamp_fragment_size r MAX_SIGNATURE_FRAGMENT_SIZE) \<le> 512"
  unfolding clamp_fragment_size_def MAX_SIGNATURE_FRAGMENT_SIZE_def
  by (auto simp: min_def word_le_nat_alt unat_gt_0)

lemma unat_clamp_fragment_size:
  "unat (clamp_fragment_size r MAX_SIGNATURE_FRAGMENT_SIZE) =
     (if r = 0 then 512 else min (unat r) 512)"
  unfolding clamp_fragment_size_def MAX_SIGNATURE_FRAGMENT_SIZE_def
  by (auto simp: min_def word_le_nat_alt)

lemma word_eq_of_nat: "unat w = m \<Longrightarrow> w = of_nat m"
  by auto

lemma unat_ucast_small:
  fixes w :: "'a::len word"
  assumes "unat w < 2 ^ LENGTH('b::len)"
  shows "unat (ucast w :: 'b word) = unat w"
  using assms by (simp add: unsigned_ucast_eq take_bit_nat_eq_self)

lemma unat_fragment_cnt:
  fixes fs :: size_t
  assumes n: "n \<le> 1536" and k1: "0 < unat fs" and k2: "unat fs \<le> 512"
  shows "unat ((of_nat n + fs - 1) div fs) = (n + unat fs - 1) div unat fs"
proof -
  have a: "unat (of_nat n :: size_t) = n" using n by (simp add: unat_of_nat)
  have b: "unat (of_nat n + fs) = n + unat fs"
    using n k2 a by (simp add: unat_word_ariths)
  have "of_nat n + fs \<noteq> 0" using b k1 by (metis add_gr_0 unat_gt_0)
  then have c: "unat (of_nat n + fs - 1) = n + unat fs - 1"
    using b by (simp add: unat_minus_one)
  show ?thesis by (simp add: unat_div c)
qed

lemma falcon_fragment_slice:
  fixes fs :: size_t
  assumes n: "length sg \<le> 1536" and k1: "0 < unat fs" and k2: "unat fs \<le> 512"
    and i: "i * unat fs < length sg"
  shows "falcon_fragment spdu sg fs cnt (of_nat i) =
     Inr (spdu \<lparr> signature_scheme := scheme_tag FALCON,
                 fragment_count := ucast cnt,
                 fragment_index := of_nat i,
                 signature_buffer_length := of_nat (length sg),
                 signature_offset := of_nat (i * unat fs),
                 fragment_length := of_nat (min (unat fs) (length sg - i * unat fs)),
                 signature_fragment :=
                   take (unat fs) (drop (i * unat fs) sg)
                   @ zero_bytes (512 - min (unat fs) (length sg - i * unat fs)) \<rparr>)"
proof -
  let ?k = "unat fs" and ?n = "length sg"
  define idx :: size_t where "idx = of_nat i"
  define len :: size_t where "len = of_nat ?n"
  define off :: "32 word" where "off = ucast (idx * fs)"
  define bytes :: size_t where "bytes = min fs (len - ucast off)"
  have ik: "i * ?k < 1536" using n i by simp
  obtain m where m: "?k = Suc m" using k1 by (cases ?k) auto
  have i_small: "i < 1536" using ik unfolding m by simp
  have ui: "unat idx = i" using i_small by (simp add: idx_def unat_of_nat)
  have "unat idx * unat fs < 2 ^ 64" using ik ui by simp
  then have um: "unat (idx * fs) = i * ?k"
    using ui by (simp add: unat_mult_lem [THEN iffD1])
  have uo: "unat off = i * ?k"
    using um ik by (simp add: off_def unat_ucast_small)
  have ub: "unat (ucast off :: size_t) = i * ?k"
    using uo ik by (simp add: unat_ucast_small)
  have un: "unat len = ?n" using n by (simp add: len_def unat_of_nat)
  have le: "(ucast off :: size_t) \<le> len"
    using ub un i by (simp add: word_le_nat_alt)
  have ur: "unat (len - ucast off) = ?n - i * ?k"
    using le ub un by (simp add: unat_sub)
  have umin: "unat bytes = min ?k (?n - i * ?k)"
    using ur by (simp add: bytes_def min_def word_le_nat_alt)
  have e1: "off = of_nat (i * ?k)"
    using uo by (rule word_eq_of_nat)
  have e2: "(ucast bytes :: 32 word) = of_nat (min ?k (?n - i * ?k))"
  proof (rule word_eq_of_nat)
    have "min ?k (?n - i * ?k) < 2 ^ 32" using k2 by simp
    then show "unat (ucast bytes :: 32 word) = min ?k (?n - i * ?k)"
      using umin by (simp add: unat_ucast_small)
  qed
  have e3: "(ucast idx :: 16 word) = of_nat i"
    using ui i_small by (intro word_eq_of_nat) (simp add: unat_ucast_small)
  have e4: "(ucast len :: 32 word) = of_nat ?n"
    using un n by (intro word_eq_of_nat) (simp add: unat_ucast_small)
  have tk: "take (min ?k (?n - i * ?k)) (drop (i * ?k) sg) = take ?k (drop (i * ?k) sg)"
    by (simp add: min_def)
  have b1: "i * ?k + min ?k (?n - i * ?k) \<le> ?n" using i by linarith
  have b2: "min ?k (?n - i * ?k) \<le> 512" using k2 by (simp add: min_def)
  have mc: "memcpy (zero_bytes (unat MAX_SIGNATURE_FRAGMENT_SIZE)) sg (unat off) (unat bytes)
      = Inr (take ?k (drop (i * ?k) sg) @ zero_bytes (512 - min ?k (?n - i * ?k)))"
    unfolding uo umin using b1 b2
    by (simp add: memcpy_def zero_bytes_def MAX_SIGNATURE_FRAGMENT_SIZE_def tk)
  have "falcon_fragment spdu sg fs cnt idx =
      (case memcpy (zero_bytes (unat MAX_SIGNATURE_FRAGMENT_SIZE)) sg (unat off) (unat bytes) of
         Inl e \<Rightarrow> Inl e
       | Inr frag \<Rightarrow>
           Inr (spdu \<lparr> signature_scheme := scheme_tag FALCON,
                       fragment_count := ucast cnt,
                       fragment_index := ucast idx,
                       signature_buffer_length := ucast len,
                       signature_offset := off,
                       fragment_length := ucast bytes,
                       signature_fragment := frag \<rparr>))"
    unfolding falcon_fragment_def Let_def off_def bytes_def len_def ..
  also have "\<dots> = Inr (spdu \<lparr> signature_scheme := scheme_tag FALCON,
                 fragment_count := ucast cnt,
                 fragment_index := of_nat i,
                 signature_buffer_length := of_nat (length sg),
                 signature_offset := of_nat (i * unat fs),
                 fragment_length := of_nat (min (unat fs) (length sg - i * unat fs)),
                 signature_fragment :=
                   take (unat fs) (drop (i * unat fs) sg)
                   @ zero_bytes (512 - min (unat fs) (length sg - i * unat fs)) \<rparr>)"
    unfolding mc e2 e3 e4 using e1 by simp
  finally show ?thesis unfolding idx_def .
qed

lemma push_fragments_map:
  assumes "\<forall>i \<in> set is. body (of_nat i) = Inr (g i)"
  shows "push_fragments body is = Inr (map g is)"
  using assms by (induction "is") simp_all


lemma index_below_ceiling:
  assumes "0 < k" and "i < (n + k - 1) div k"
  shows "i * k < (n :: nat)"
proof -
  have "Suc i \<le> (n + k - 1) div k" using assms(2) by simp
  then have "Suc i * k \<le> n + k - 1"
    using assms(1) by (simp add: less_eq_div_iff_mult_less_eq)
  then show ?thesis using assms(1) by simp
qed

lemma ceiling_covers:
  assumes "0 < k"
  shows "(n :: nat) \<le> ((n + k - 1) div k) * k \<and> ((n + k - 1) div k) * k < n + k"
proof -
  have a: "(n + k - 1) mod k < k" using assms by simp
  have b: "((n + k - 1) div k) * k + (n + k - 1) mod k = n + k - 1" by simp
  show ?thesis using a b assms by linarith
qed

lemma fragment_number_bound:
  assumes "0 < k"
  shows "(n + k - 1) div k \<le> (n :: nat)"
proof (rule ccontr)
  assume "\<not> (n + k - 1) div k \<le> n"
  then have "Suc n \<le> (n + k - 1) div k" by simp
  then have "Suc n * k \<le> ((n + k - 1) div k) * k" by (rule mult_le_mono1)
  moreover have "((n + k - 1) div k) * k < n + k" using ceiling_covers [OF assms] by simp
  moreover have "n * 1 \<le> n * k" using assms by (intro mult_le_mono2) simp
  ultimately show False by simp
qed


lemma copy_n_front:
  "length sg \<le> m \<Longrightarrow> copy_n sg (length sg) (zero_bytes m) 0 = Inr (sg @ zero_bytes (m - length sg))"
  by (simp add: copy_n_def zero_bytes_def)

lemma sign_message_falcon_result:
  assumes key: "falcon_private_key v \<noteq> []"
    and sg: "sg = falcon_sign P (length (sign_calls v))
                    (bytes_of_tbsData P (tbsData (signedData (data spdu)))) (falcon_private_key v)"
    and n: "length sg \<le> 1536"
    and k: "k = unat (clamp_fragment_size (falcon_fragment_size (pqc v)) MAX_SIGNATURE_FRAGMENT_SIZE)"
    and c: "c = (length sg + k - 1) div k"
  shows "sign_message_falcon P v spdu =
     Inr (map (falcon_slice spdu sg k c) [0 ..< c],
          v \<lparr> sign_calls := sign_calls v @
                 [Falcon_sign_call (bytes_of_tbsData P (tbsData (signedData (data spdu))))
                    (falcon_private_key v)] \<rparr>)"
proof -
  define fs where "fs = clamp_fragment_size (falcon_fragment_size (pqc v)) MAX_SIGNATURE_FRAGMENT_SIZE"
  define cnt :: size_t where "cnt = (of_nat (length sg) + fs - 1) div fs"
  have k1: "0 < unat fs" and k2: "unat fs \<le> 512"
    using clamp_fragment_size_bounds [of "falcon_fragment_size (pqc v)"] by (simp_all add: fs_def)
  have kfs: "k = unat fs" by (simp add: k fs_def)
  have ucnt: "unat cnt = c"
    unfolding cnt_def c kfs by (rule unat_fragment_cnt [OF n k1 k2])
  have "c \<le> length sg" unfolding c using fragment_number_bound k1 kfs by simp
  then have "c < 2 ^ 16" using n by simp
  then have ecnt: "(ucast cnt :: 16 word) = of_nat c"
    using ucnt by (intro word_eq_of_nat) (simp add: unat_ucast_small)
  have body: "\<forall>i \<in> set [0 ..< c]. falcon_fragment spdu sg fs cnt (of_nat i) = Inr (falcon_slice spdu sg k c i)"
  proof
    fix i assume "i \<in> set [0 ..< c]"
    then have "i < (length sg + k - 1) div k" by (simp add: c)
    then have "i * unat fs < length sg" using index_below_ceiling k1 kfs by simp
    from falcon_fragment_slice [OF n k1 k2 this]
    show "falcon_fragment spdu sg fs cnt (of_nat i) = Inr (falcon_slice spdu sg k c i)"
      by (simp add: falcon_slice_def ecnt kfs)
  qed
  have cp: "copy_n sg (length sg) (zero_bytes (unat MAX_SIGNATURE_TOTAL_SIZE)) 0
      = Inr (sg @ zero_bytes (1536 - length sg))"
    using copy_n_front [of sg 1536] n by (simp add: MAX_SIGNATURE_TOTAL_SIZE_def)
  show ?thesis
    unfolding sign_message_falcon_def Let_def sg [symmetric] cp
    using key push_fragments_map [OF body]
    by (simp add: fs_def [symmetric] cnt_def [symmetric] ucnt)
qed


text \<open>
  C3.  A Falcon signing whose primitive returns a signature \<open>sg\<close> of at most
  \<open>MAX_SIGNATURE_TOTAL_SIZE\<close> bytes uses the fragment size \<open>fs\<close> that is 512 when the
  configured size is 0 and the minimum of the configured size and 512 otherwise.  It
  returns \<open>\<lceil>length sg / fs\<rceil>\<close> fragments (the least count whose slices cover the
  signature).  Fragment \<open>i\<close> is the template with the scheme tag FALCON, index \<open>i\<close>,
  the fragment count, the signature length, the offset \<open>i * fs\<close>, the length
  \<open>min fs (length sg - i * fs)\<close>, and the bytes of the signature at that offset followed
  by zeros up to 512 bytes; no other field of the template is changed.
\<close>

theorem sign_message_falcon_fragments:
  assumes key: "falcon_private_key v \<noteq> []"
    and sg: "sg = falcon_sign P (length (sign_calls v))
                    (bytes_of_tbsData P (tbsData (signedData (data spdu)))) (falcon_private_key v)"
    and n: "length sg \<le> unat MAX_SIGNATURE_TOTAL_SIZE"
    and fs: "fs = unat (clamp_fragment_size (falcon_fragment_size (pqc v)) MAX_SIGNATURE_FRAGMENT_SIZE)"
  shows "fs = (if falcon_fragment_size (pqc v) = 0 then 512
               else min (unat (falcon_fragment_size (pqc v))) 512)
    \<and> (\<exists>fragments v'. sign_message_falcon P v spdu = Inr (fragments, v')
          \<and> length fragments = (length sg + fs - 1) div fs
          \<and> length sg \<le> length fragments * fs
          \<and> length fragments * fs < length sg + fs
          \<and> (\<forall>i < length fragments.
                signature_scheme (fragments ! i) = scheme_tag FALCON
              \<and> unat (fragment_index (fragments ! i)) = i
              \<and> unat (fragment_count (fragments ! i)) = length fragments
              \<and> unat (signature_buffer_length (fragments ! i)) = length sg
              \<and> unat (signature_offset (fragments ! i)) = i * fs
              \<and> unat (fragment_length (fragments ! i)) = min fs (length sg - i * fs)
              \<and> signature_fragment (fragments ! i) =
                  take (min fs (length sg - i * fs)) (drop (i * fs) sg)
                  @ zero_bytes (512 - min fs (length sg - i * fs))
              \<and> length (signature_fragment (fragments ! i)) = 512
              \<and> fragments ! i =
                  spdu \<lparr> signature_scheme := signature_scheme (fragments ! i),
                         fragment_count := fragment_count (fragments ! i),
                         fragment_index := fragment_index (fragments ! i),
                         signature_buffer_length := signature_buffer_length (fragments ! i),
                         signature_offset := signature_offset (fragments ! i),
                         fragment_length := fragment_length (fragments ! i),
                         signature_fragment := signature_fragment (fragments ! i) \<rparr>))"
proof -
  define c where "c = (length sg + fs - 1) div fs"
  have n': "length sg \<le> 1536" using n by (simp add: MAX_SIGNATURE_TOTAL_SIZE_def)
  have k1: "0 < fs" and k2: "fs \<le> 512"
    using clamp_fragment_size_bounds [of "falcon_fragment_size (pqc v)"] by (simp_all add: fs)
  have res: "sign_message_falcon P v spdu =
     Inr (map (falcon_slice spdu sg fs c) [0 ..< c],
          v \<lparr> sign_calls := sign_calls v @
                 [Falcon_sign_call (bytes_of_tbsData P (tbsData (signedData (data spdu))))
                    (falcon_private_key v)] \<rparr>)"
    by (rule sign_message_falcon_result [OF key sg n' fs c_def])
  have cn: "c \<le> length sg" unfolding c_def by (rule fragment_number_bound [OF k1])
  have cov: "length sg \<le> c * fs \<and> c * fs < length sg + fs"
    unfolding c_def by (rule ceiling_covers [OF k1])
  have each: "signature_scheme (falcon_slice spdu sg fs c i) = scheme_tag FALCON
              \<and> unat (fragment_index (falcon_slice spdu sg fs c i)) = i
              \<and> unat (fragment_count (falcon_slice spdu sg fs c i)) = c
              \<and> unat (signature_buffer_length (falcon_slice spdu sg fs c i)) = length sg
              \<and> unat (signature_offset (falcon_slice spdu sg fs c i)) = i * fs
              \<and> unat (fragment_length (falcon_slice spdu sg fs c i)) = min fs (length sg - i * fs)
              \<and> signature_fragment (falcon_slice spdu sg fs c i) =
                  take (min fs (length sg - i * fs)) (drop (i * fs) sg)
                  @ zero_bytes (512 - min fs (length sg - i * fs))
              \<and> length (signature_fragment (falcon_slice spdu sg fs c i)) = 512
              \<and> falcon_slice spdu sg fs c i =
                  spdu \<lparr> signature_scheme := signature_scheme (falcon_slice spdu sg fs c i),
                         fragment_count := fragment_count (falcon_slice spdu sg fs c i),
                         fragment_index := fragment_index (falcon_slice spdu sg fs c i),
                         signature_buffer_length := signature_buffer_length (falcon_slice spdu sg fs c i),
                         signature_offset := signature_offset (falcon_slice spdu sg fs c i),
                         fragment_length := fragment_length (falcon_slice spdu sg fs c i),
                         signature_fragment := signature_fragment (falcon_slice spdu sg fs c i) \<rparr>"
    if i: "i < c" for i
  proof -
    have ik: "i * fs < length sg" using index_below_ceiling [OF k1] i by (simp add: c_def)
    have a: "i < 2 ^ 16" "c < 2 ^ 16" "length sg < 2 ^ 32" "i * fs < 2 ^ 32"
      "min fs (length sg - i * fs) < 2 ^ 32"
      using i cn n' ik k2 by simp_all
    have m: "min fs (length sg - i * fs) \<le> 512" using k2 by simp
    have l: "min (length sg - i * fs) (min fs (length sg - i * fs)) = min fs (length sg - i * fs)"
      by simp
    have tk: "take fs (drop (i * fs) sg) = take (min fs (length sg - i * fs)) (drop (i * fs) sg)"
      by (simp add: min_def)
    show ?thesis
      unfolding falcon_slice_def using a m
      by (simp add: unat_of_nat zero_bytes_def l tk del: of_nat_mult)
  qed
  let ?frs = "map (falcon_slice spdu sg fs c) [0 ..< c]"
  have len: "length ?frs = c" by simp
  have first: "fs = (if falcon_fragment_size (pqc v) = 0 then 512
               else min (unat (falcon_fragment_size (pqc v))) 512)"
    unfolding fs by (rule unat_clamp_fragment_size)
  show ?thesis
  proof (intro conjI exI allI impI)
    show "fs = (if falcon_fragment_size (pqc v) = 0 then 512
               else min (unat (falcon_fragment_size (pqc v))) 512)" by (rule first)
    show "sign_message_falcon P v spdu = Inr (?frs,
          v \<lparr> sign_calls := sign_calls v @
                 [Falcon_sign_call (bytes_of_tbsData P (tbsData (signedData (data spdu))))
                    (falcon_private_key v)] \<rparr>)" by (rule res)
    show "length ?frs = (length sg + fs - 1) div fs" by (simp add: c_def)
    show "length sg \<le> length ?frs * fs" using cov by simp
    show "length ?frs * fs < length sg + fs" using cov by simp
  next
    fix i assume "i < length ?frs"
    then have i: "i < c" by simp
    then have nth: "?frs ! i = falcon_slice spdu sg fs c i" by simp
    note e = each [OF i]
    show "signature_scheme (?frs ! i) = scheme_tag FALCON"
      "unat (fragment_index (?frs ! i)) = i"
      "unat (fragment_count (?frs ! i)) = length ?frs"
      "unat (signature_buffer_length (?frs ! i)) = length sg"
      "unat (signature_offset (?frs ! i)) = i * fs"
      "unat (fragment_length (?frs ! i)) = min fs (length sg - i * fs)"
      "signature_fragment (?frs ! i) =
                  take (min fs (length sg - i * fs)) (drop (i * fs) sg)
                  @ zero_bytes (512 - min fs (length sg - i * fs))"
      "length (signature_fragment (?frs ! i)) = 512"
      "?frs ! i =
                  spdu \<lparr> signature_scheme := signature_scheme (?frs ! i),
                         fragment_count := fragment_count (?frs ! i),
                         fragment_index := fragment_index (?frs ! i),
                         signature_buffer_length := signature_buffer_length (?frs ! i),
                         signature_offset := signature_offset (?frs ! i),
                         fragment_length := fragment_length (?frs ! i),
                         signature_fragment := signature_fragment (?frs ! i) \<rparr>"
      unfolding nth len using e by blast+
  qed
qed


theorem sign_message_falcon_fragments_witness:
  "falcon_private_key toy_vehicle \<noteq> []
   \<and> length [0, 3, 4 :: byte] \<le> unat MAX_SIGNATURE_TOTAL_SIZE
   \<and> (\<exists>fragments v'. sign_message_falcon toy_primitives toy_vehicle spdu_fragment_init = Inr (fragments, v')
         \<and> length fragments = 2
         \<and> unat (signature_offset (fragments ! 1)) = 2
         \<and> unat (fragment_length (fragments ! 1)) = 1
         \<and> signature_fragment (fragments ! 1) = 4 # zero_bytes 511)"
proof -
  have key: "falcon_private_key toy_vehicle \<noteq> []" by (simp add: toy_vehicle_def)
  have sg: "[0, 3, 4] = falcon_sign toy_primitives (length (sign_calls toy_vehicle))
      (bytes_of_tbsData toy_primitives (tbsData (signedData (data spdu_fragment_init))))
      (falcon_private_key toy_vehicle)"
    by (simp add: toy_primitives_def toy_vehicle_def spdu_fragment_init_def zero_data_def)
  have n: "length [0, 3, 4 :: byte] \<le> unat MAX_SIGNATURE_TOTAL_SIZE"
    by (simp add: MAX_SIGNATURE_TOTAL_SIZE_def)
  have fs: "2 = unat (clamp_fragment_size (falcon_fragment_size (pqc toy_vehicle)) MAX_SIGNATURE_FRAGMENT_SIZE)"
    by (simp add: toy_vehicle_def clamp_fragment_size_def MAX_SIGNATURE_FRAGMENT_SIZE_def)
  from sign_message_falcon_fragments [OF key sg n fs]
  obtain fragments v' where r: "sign_message_falcon toy_primitives toy_vehicle spdu_fragment_init = Inr (fragments, v')"
    and l: "length fragments = (length [0, 3, 4 :: byte] + 2 - 1) div 2"
    and a: "\<forall>i < length fragments.
                signature_scheme (fragments ! i) = scheme_tag FALCON
              \<and> unat (fragment_index (fragments ! i)) = i
              \<and> unat (fragment_count (fragments ! i)) = length fragments
              \<and> unat (signature_buffer_length (fragments ! i)) = length [0, 3, 4 :: byte]
              \<and> unat (signature_offset (fragments ! i)) = i * 2
              \<and> unat (fragment_length (fragments ! i)) = min 2 (length [0, 3, 4 :: byte] - i * 2)
              \<and> signature_fragment (fragments ! i) =
                  take (min 2 (length [0, 3, 4 :: byte] - i * 2)) (drop (i * 2) [0, 3, 4])
                  @ zero_bytes (512 - min 2 (length [0, 3, 4 :: byte] - i * 2))"
    by blast
  have l2: "length fragments = 2" using l by simp
  then have "1 < length fragments" by simp
  with a have "unat (signature_offset (fragments ! 1)) = 1 * 2
      \<and> unat (fragment_length (fragments ! 1)) = min 2 (length [0, 3, 4 :: byte] - 1 * 2)
      \<and> signature_fragment (fragments ! 1) =
                  take (min 2 (length [0, 3, 4 :: byte] - 1 * 2)) (drop (1 * 2) [0, 3, 4])
                  @ zero_bytes (512 - min 2 (length [0, 3, 4 :: byte] - 1 * 2))"
    by blast
  then have "unat (signature_offset (fragments ! 1)) = 2
      \<and> unat (fragment_length (fragments ! 1)) = 1
      \<and> signature_fragment (fragments ! 1) = 4 # zero_bytes 511"
    by simp
  with key n r l2 show ?thesis by blast
qed

section \<open>The ECDSA signer\<close>

lemma copy_n_front_Inr:
  assumes "copy_n src (length src) dst 0 = Inr r"
  shows "r = src @ drop (length src) dst \<and> length src \<le> length dst"
  using assms by (auto simp: copy_n_def split: if_splits)

lemma generate_spdu_Inr:
  assumes "generate_spdu P v now seq timestep = Inr (base, v1)"
    and bm: "generate_bsm P v timestep = Inr new_bsm"
  shows "length (assembly_certificate_signature P v) \<le> 72
     \<and> base = spdu_fragment_init
          \<lparr> vehicle_id := number v, sequence_number := seq,
            certificate_signature_buffer_length := of_nat (length (assembly_certificate_signature P v)),
            data := \<lparr> signedData =
                       \<lparr> tbsData = \<lparr> message = new_bsm,
                                     headerInfo = \<lparr> timestamp = now \<rparr> \<rparr>,
                         cert = vehicle_certificate_ecdsa v \<rparr>,
                     certificate_signature = assembly_certificate_signature P v
                        @ zero_bytes (72 - length (assembly_certificate_signature P v)) \<rparr> \<rparr>
     \<and> v1 = v \<lparr> member_certificate_signature := assembly_certificate_signature P v
                     @ drop (length (assembly_certificate_signature P v)) (member_certificate_signature v),
                certificate_buffer_length := of_nat (length (assembly_certificate_signature P v)),
                sign_calls := sign_calls v @
                  [Ecdsa_sign_call (sha256sum P (vehicle_certificate_ecdsa v)) (cert_private_ec_key v)] \<rparr>"
proof -
  let ?csg = "ecdsa_sign P (length (sign_calls v)) (sha256sum P (vehicle_certificate_ecdsa v))
                       (cert_private_ec_key v)"
  from assms have "\<exists>member cs.
      copy_n ?csg (length ?csg) (member_certificate_signature v) 0 = Inr member
    \<and> copy_n member (length ?csg) (zero_bytes 72) 0 = Inr cs
    \<and> base = spdu_fragment_init
          \<lparr> vehicle_id := number v, sequence_number := seq,
            signature_fragment := zero_bytes (unat MAX_SIGNATURE_FRAGMENT_SIZE),
            certificate_signature_buffer_length := of_nat (length ?csg),
            data := \<lparr> signedData =
                       \<lparr> tbsData = \<lparr> message = new_bsm,
                                     headerInfo = \<lparr> timestamp = now \<rparr> \<rparr>,
                         cert = vehicle_certificate_ecdsa v \<rparr>,
                     certificate_signature = cs \<rparr> \<rparr>
    \<and> v1 = v \<lparr> member_certificate_signature := member,
                certificate_buffer_length := of_nat (length ?csg),
                sign_calls := sign_calls v @
                  [Ecdsa_sign_call (sha256sum P (vehicle_certificate_ecdsa v)) (cert_private_ec_key v)] \<rparr>"
    by (simp add: generate_spdu_def bm Let_def zero_data_def split: sum.splits)
  then obtain member cs where
    m: "copy_n ?csg (length ?csg) (member_certificate_signature v) 0 = Inr member"
    and c: "copy_n member (length ?csg) (zero_bytes 72) 0 = Inr cs"
    and b: "base = spdu_fragment_init
          \<lparr> vehicle_id := number v, sequence_number := seq,
            signature_fragment := zero_bytes (unat MAX_SIGNATURE_FRAGMENT_SIZE),
            certificate_signature_buffer_length := of_nat (length ?csg),
            data := \<lparr> signedData =
                       \<lparr> tbsData = \<lparr> message = new_bsm,
                                     headerInfo = \<lparr> timestamp = now \<rparr> \<rparr>,
                         cert = vehicle_certificate_ecdsa v \<rparr>,
                     certificate_signature = cs \<rparr> \<rparr>"
    and v1: "v1 = v \<lparr> member_certificate_signature := member,
                certificate_buffer_length := of_nat (length ?csg),
                sign_calls := sign_calls v @
                  [Ecdsa_sign_call (sha256sum P (vehicle_certificate_ecdsa v)) (cert_private_ec_key v)] \<rparr>"
    by blast
  from copy_n_front_Inr [OF m] have me: "member = ?csg @ drop (length ?csg) (member_certificate_signature v)"
    by simp
  from c have l: "length ?csg \<le> 72" and cse: "cs = ?csg @ zero_bytes (72 - length ?csg)"
    by (auto simp: copy_n_def me zero_bytes_def split: if_splits)
  show ?thesis
    using l b v1 unfolding me cse assembly_certificate_signature_def
    by (simp add: spdu_fragment_init_def)
qed

lemma unat_ucast_32_64: "unat (ucast (w :: 32 word) :: 64 word) = unat w"
proof -
  have "unat w < 2 ^ 32" using unsigned_less [of w] by simp
  then have "unat w < 2 ^ LENGTH(64)" by simp
  then show ?thesis by (rule unat_ucast_small)
qed

lemma sign_message_ecdsa_exit:
  assumes "512 < unat (ECDSA_size P (private_ec_key v))"
  shows "sign_message_ecdsa P v spdu = Inl Exit_Failure"
proof -
  have "unat (ucast (ECDSA_size P (private_ec_key v)) :: size_t) = unat (ECDSA_size P (private_ec_key v))"
    by (rule unat_ucast_32_64)
  then have "MAX_SIGNATURE_FRAGMENT_SIZE < (ucast (ECDSA_size P (private_ec_key v)) :: size_t)"
    using assms by (simp add: word_less_nat_alt MAX_SIGNATURE_FRAGMENT_SIZE_def)
  then show ?thesis by (simp add: sign_message_ecdsa_def Let_def)
qed

lemma sign_message_ecdsa_result:
  assumes sz: "unat (ECDSA_size P (private_ec_key v)) \<le> 512"
    and sg: "sg = ecdsa_sign P (length (sign_calls v))
                    (sha256sum P (bytes_of_tbsData P (tbsData (signedData (data spdu)))))
                    (private_ec_key v)"
    and n: "length sg \<le> unat (ECDSA_size P (private_ec_key v))"
  shows "sign_message_ecdsa P v spdu =
     Inr (spdu \<lparr> signature_buffer_length := of_nat (length sg),
                 fragment_count := 1,
                 fragment_index := 0,
                 fragment_length := of_nat (length sg),
                 signature_offset := 0,
                 signature_fragment := sg @ zero_bytes (512 - length sg) \<rparr>,
          v \<lparr> sign_calls := sign_calls v @
                 [Ecdsa_sign_call (sha256sum P (bytes_of_tbsData P (tbsData (signedData (data spdu)))))
                    (private_ec_key v)] \<rparr>)"
proof -
  let ?l0 = "ECDSA_size P (private_ec_key v)"
  have "unat (ucast ?l0 :: size_t) = unat ?l0"
    by (rule unat_ucast_32_64)
  then have chk: "\<not> MAX_SIGNATURE_FRAGMENT_SIZE < (ucast ?l0 :: size_t)"
    using sz by (simp add: word_less_nat_alt MAX_SIGNATURE_FRAGMENT_SIZE_def)
  have c1: "copy_n sg (length sg) (zero_bytes (unat ?l0)) 0 = Inr (sg @ zero_bytes (unat ?l0 - length sg))"
    using n by (simp add: copy_n_def zero_bytes_def)
  have c2: "copy_n (sg @ zero_bytes (unat ?l0 - length sg)) (unat ?l0)
               (zero_bytes (unat MAX_SIGNATURE_FRAGMENT_SIZE)) 0
            = Inr (sg @ zero_bytes (512 - length sg))"
    using n sz by (simp add: copy_n_def zero_bytes_def MAX_SIGNATURE_FRAGMENT_SIZE_def
        replicate_add [symmetric])
  have l: "length (sg @ zero_bytes (unat ?l0 - length sg)) = unat ?l0"
    using n by (simp add: zero_bytes_def)
  show ?thesis
    unfolding sign_message_ecdsa_def Let_def sg [symmetric] c1 sum.case l c2 using chk
    by simp
qed


lemma generate_spdu_bsm:
  assumes "generate_spdu P v now seq timestep = Inr (base, v1)"
  shows "\<exists>new_bsm. generate_bsm P v timestep = Inr new_bsm"
  using assms by (cases "generate_bsm P v timestep") (simp_all add: generate_spdu_def)

lemma generate_spdu_past_trace:
  assumes "\<not> (0 \<le> timestep \<and> nat timestep < length (member_timestep v))"
  shows "generate_spdu P v now seq timestep = Inl Undefined_Behaviour"
proof -
  have "trace_at (member_timestep v) timestep 0 = Inl Undefined_Behaviour"
    using assms by (auto simp: trace_at_def)
  then have "generate_bsm P v timestep = Inl Undefined_Behaviour"
    by (simp add: generate_bsm_def)
  then show ?thesis by (simp add: generate_spdu_def)
qed

lemma generate_spdu_keeps:
  assumes "generate_spdu P v now seq timestep = Inr (base, v1)"
  shows "pqc v1 = pqc v \<and> private_ec_key v1 = private_ec_key v
     \<and> falcon_private_key v1 = falcon_private_key v
     \<and> fragment_count base = 1 \<and> fragment_index base = 0 \<and> signature_offset base = 0"
proof -
  from generate_spdu_bsm [OF assms] obtain new_bsm where
    bm: "generate_bsm P v timestep = Inr new_bsm" by blast
  from generate_spdu_Inr [OF assms bm] show ?thesis by (simp add: spdu_fragment_init_def)
qed

text \<open>
  C7.  For an SPDU assembled under the ECDSA scheme, with \<open>sg\<close> the signature the
  primitive returns (at most \<open>ECDSA_size\<close> bytes, as the primitive promises): the signer
  exits when \<open>ECDSA_size\<close> exceeds 512, hence whenever the signature is longer than 512
  bytes; otherwise it returns exactly one fragment, with fragment count 1, index 0,
  offset 0, fragment length and signature buffer length equal to the length of \<open>sg\<close>,
  and the bytes of \<open>sg\<close> followed by zeros up to 512 bytes.
\<close>

theorem prepare_signed_fragments_ecdsa:
  assumes sch: "scheme (pqc v) = ECDSA"
    and gen: "generate_spdu P v now seq timestep = Inr (base, v1)"
    and sg: "sg = ecdsa_sign P (length (sign_calls v1))
                    (sha256sum P (bytes_of_tbsData P (tbsData (signedData (data base)))))
                    (private_ec_key v)"
    and n: "length sg \<le> unat (ECDSA_size P (private_ec_key v))"
  shows "(512 < unat (ECDSA_size P (private_ec_key v)) \<longrightarrow>
            prepare_signed_fragments P v now seq timestep = Inl Exit_Failure)
       \<and> (512 < length sg \<longrightarrow>
            prepare_signed_fragments P v now seq timestep = Inl Exit_Failure)
       \<and> (unat (ECDSA_size P (private_ec_key v)) \<le> 512 \<longrightarrow>
            (\<exists>f v'. prepare_signed_fragments P v now seq timestep = Inr ([f], v')
               \<and> signature_scheme f = scheme_tag ECDSA
               \<and> fragment_count f = 1
               \<and> fragment_index f = 0
               \<and> signature_offset f = 0
               \<and> unat (fragment_length f) = length sg
               \<and> unat (signature_buffer_length f) = length sg
               \<and> signature_fragment f = sg @ zero_bytes (512 - length sg)
               \<and> length (signature_fragment f) = 512
               \<and> f = base \<lparr> signature_scheme := signature_scheme f,
                            signature_buffer_length := signature_buffer_length f,
                            fragment_length := fragment_length f,
                            signature_fragment := signature_fragment f \<rparr>))"
proof -
  note k = generate_spdu_keeps [OF gen]
  have p: "prepare_signed_fragments P v now seq timestep =
      (case sign_message_ecdsa P v1 (base \<lparr> signature_scheme := scheme_tag ECDSA \<rparr>) of
         Inl e \<Rightarrow> Inl e
       | Inr (spdu1, v2) \<Rightarrow> Inr ([spdu1], v2))"
    using sch k by (simp add: prepare_signed_fragments_def gen)
  have big: "prepare_signed_fragments P v now seq timestep = Inl Exit_Failure"
    if "512 < unat (ECDSA_size P (private_ec_key v))"
    using that k by (simp add: p sign_message_ecdsa_exit)
  have ok: "\<exists>f v'. prepare_signed_fragments P v now seq timestep = Inr ([f], v')
               \<and> signature_scheme f = scheme_tag ECDSA
               \<and> fragment_count f = 1
               \<and> fragment_index f = 0
               \<and> signature_offset f = 0
               \<and> unat (fragment_length f) = length sg
               \<and> unat (signature_buffer_length f) = length sg
               \<and> signature_fragment f = sg @ zero_bytes (512 - length sg)
               \<and> length (signature_fragment f) = 512
               \<and> f = base \<lparr> signature_scheme := signature_scheme f,
                            signature_buffer_length := signature_buffer_length f,
                            fragment_length := fragment_length f,
                            signature_fragment := signature_fragment f \<rparr>"
    if sz: "unat (ECDSA_size P (private_ec_key v)) \<le> 512"
  proof -
    have sz1: "unat (ECDSA_size P (private_ec_key v1)) \<le> 512" using sz k by simp
    have sg1: "sg = ecdsa_sign P (length (sign_calls v1))
                    (sha256sum P (bytes_of_tbsData P (tbsData (signedData
                       (data (base \<lparr> signature_scheme := scheme_tag ECDSA \<rparr>))))))
                    (private_ec_key v1)"
      using sg k by simp
    have n1: "length sg \<le> unat (ECDSA_size P (private_ec_key v1))" using n k by simp
    have l: "length sg < 2 ^ 32" "length sg \<le> 512" using n sz by simp_all
    show ?thesis
      unfolding p sign_message_ecdsa_result [OF sz1 sg1 n1]
      using l k by (simp add: unat_of_nat zero_bytes_def)
  qed
  show ?thesis using big ok n by auto
qed


lemma toy_generate_bsm:
  "generate_bsm P toy_vehicle 0 =
     Inr \<lparr> latitude = 42, longitude = 77, elevation = 100, speed = 0, heading = 0 \<rparr>"
  "generate_bsm P toy_ecdsa_vehicle 0 =
     Inr \<lparr> latitude = 42, longitude = 77, elevation = 100, speed = 0, heading = 0 \<rparr>"
  by (simp_all add: generate_bsm_def trace_at_def toy_ecdsa_vehicle_def toy_vehicle_def)

lemma toy_generate_spdu:
  "\<exists>base v1. generate_spdu toy_primitives toy_ecdsa_vehicle 7 0 0 = Inr (base, v1)"
  unfolding generate_spdu_def toy_generate_bsm
  by (simp add: toy_primitives_def toy_ecdsa_vehicle_def
      toy_vehicle_def copy_n_def zero_bytes_def zero_data_def Let_def)

theorem prepare_signed_fragments_ecdsa_witness:
  "scheme (pqc toy_ecdsa_vehicle) = ECDSA
   \<and> (\<exists>f v'. prepare_signed_fragments toy_primitives toy_ecdsa_vehicle 7 0 0 = Inr ([f], v')
         \<and> fragment_count f = 1 \<and> fragment_index f = 0 \<and> signature_offset f = 0
         \<and> unat (fragment_length f) = 2 \<and> unat (signature_buffer_length f) = 2
         \<and> signature_fragment f = [7, 2] @ zero_bytes 510)"
proof -
  have sch: "scheme (pqc toy_ecdsa_vehicle) = ECDSA" by (simp add: toy_ecdsa_vehicle_def)
  obtain base v1 where gen: "generate_spdu toy_primitives toy_ecdsa_vehicle 7 0 0 = Inr (base, v1)"
    using toy_generate_spdu by blast
  from generate_spdu_Inr [OF gen toy_generate_bsm(2)]
  have tbs: "tbsData (signedData (data base)) =
      \<lparr> message = \<lparr> latitude = 42, longitude = 77, elevation = 100, speed = 0, heading = 0 \<rparr>,
        headerInfo = \<lparr> timestamp = 7 \<rparr> \<rparr>"
    by simp
  have sg: "[7, 2] = ecdsa_sign toy_primitives (length (sign_calls v1))
                    (sha256sum toy_primitives (bytes_of_tbsData toy_primitives (tbsData (signedData (data base)))))
                    (private_ec_key toy_ecdsa_vehicle)"
    unfolding tbs by (simp add: toy_primitives_def toy_ecdsa_vehicle_def toy_vehicle_def)
  have n: "length [7, 2 :: byte] \<le> unat (ECDSA_size toy_primitives (private_ec_key toy_ecdsa_vehicle))"
    by (simp add: toy_primitives_def)
  have sz: "unat (ECDSA_size toy_primitives (private_ec_key toy_ecdsa_vehicle)) \<le> 512"
    by (simp add: toy_primitives_def)
  from prepare_signed_fragments_ecdsa [OF sch gen sg n] sz
  obtain f v' where "prepare_signed_fragments toy_primitives toy_ecdsa_vehicle 7 0 0 = Inr ([f], v')"
    "fragment_count f = 1" "fragment_index f = 0" "signature_offset f = 0"
    "unat (fragment_length f) = length [7, 2 :: byte]"
    "unat (signature_buffer_length f) = length [7, 2 :: byte]"
    "signature_fragment f = [7, 2] @ zero_bytes (512 - length [7, 2 :: byte])"
    by blast
  then show ?thesis using sch by simp
qed

section \<open>What the fragments of one SPDU share\<close>

lemma sign_message_ecdsa_Inr:
  assumes "sign_message_ecdsa P v spdu = Inr (f, v2)"
  shows "vehicle_id f = vehicle_id spdu \<and> sequence_number f = sequence_number spdu
     \<and> signature_scheme f = signature_scheme spdu \<and> data f = data spdu
     \<and> certificate_signature_buffer_length f = certificate_signature_buffer_length spdu
     \<and> v2 = v \<lparr> sign_calls := sign_calls v @
                 [Ecdsa_sign_call (sha256sum P (bytes_of_tbsData P (tbsData (signedData (data spdu)))))
                    (private_ec_key v)] \<rparr>"
  using assms by (auto simp: sign_message_ecdsa_def Let_def split: if_splits sum.splits)

lemma falcon_fragment_Inr:
  assumes "falcon_fragment spdu sg fs cnt idx = Inr f"
  shows "vehicle_id f = vehicle_id spdu \<and> sequence_number f = sequence_number spdu
     \<and> signature_scheme f = scheme_tag FALCON \<and> data f = data spdu
     \<and> certificate_signature_buffer_length f = certificate_signature_buffer_length spdu
     \<and> fragment_count f = ucast cnt
     \<and> signature_buffer_length f = ucast (of_nat (length sg) :: size_t)"
  using assms by (auto simp: falcon_fragment_def Let_def split: sum.splits)

lemma push_fragments_Inr:
  assumes "push_fragments body is = Inr fs"
  shows "\<forall>f \<in> set fs. \<exists>idx. body idx = Inr f"
  using assms
proof (induction "is" arbitrary: fs)
  case Nil
  then show ?case by simp
next
  case (Cons i "is")
  then show ?case by (auto split: sum.splits)
qed

lemma sign_message_falcon_Inr:
  assumes "sign_message_falcon P v spdu = Inr (fragments, v2)"
  shows "(\<forall>f \<in> set fragments.
            vehicle_id f = vehicle_id spdu \<and> sequence_number f = sequence_number spdu
          \<and> signature_scheme f = scheme_tag FALCON \<and> data f = data spdu
          \<and> certificate_signature_buffer_length f = certificate_signature_buffer_length spdu
          \<and> (\<forall>g \<in> set fragments. fragment_count g = fragment_count f
                \<and> signature_buffer_length g = signature_buffer_length f))
     \<and> v2 = v \<lparr> sign_calls := sign_calls v @
                 [Falcon_sign_call (bytes_of_tbsData P (tbsData (signedData (data spdu))))
                    (falcon_private_key v)] \<rparr>"
proof -
  let ?sg0 = "falcon_sign P (length (sign_calls v))
               (bytes_of_tbsData P (tbsData (signedData (data spdu)))) (falcon_private_key v)"
  from assms obtain buf where
    pf: "push_fragments
           (falcon_fragment spdu (take (length ?sg0) buf)
              (clamp_fragment_size (falcon_fragment_size (pqc v)) MAX_SIGNATURE_FRAGMENT_SIZE)
              ((of_nat (length ?sg0) +
                clamp_fragment_size (falcon_fragment_size (pqc v)) MAX_SIGNATURE_FRAGMENT_SIZE - 1) div
               clamp_fragment_size (falcon_fragment_size (pqc v)) MAX_SIGNATURE_FRAGMENT_SIZE))
           [0 ..< unat ((of_nat (length ?sg0) +
                clamp_fragment_size (falcon_fragment_size (pqc v)) MAX_SIGNATURE_FRAGMENT_SIZE - 1) div
               clamp_fragment_size (falcon_fragment_size (pqc v)) MAX_SIGNATURE_FRAGMENT_SIZE)]
         = Inr fragments"
    and v2: "v2 = v \<lparr> sign_calls := sign_calls v @
                 [Falcon_sign_call (bytes_of_tbsData P (tbsData (signedData (data spdu))))
                    (falcon_private_key v)] \<rparr>"
    by (auto simp: sign_message_falcon_def Let_def split: if_splits sum.splits)
  from push_fragments_Inr [OF pf] falcon_fragment_Inr
  have "\<forall>f \<in> set fragments.
            vehicle_id f = vehicle_id spdu \<and> sequence_number f = sequence_number spdu
          \<and> signature_scheme f = scheme_tag FALCON \<and> data f = data spdu
          \<and> certificate_signature_buffer_length f = certificate_signature_buffer_length spdu
          \<and> fragment_count f = ucast ((of_nat (length ?sg0) +
                clamp_fragment_size (falcon_fragment_size (pqc v)) MAX_SIGNATURE_FRAGMENT_SIZE - 1) div
               clamp_fragment_size (falcon_fragment_size (pqc v)) MAX_SIGNATURE_FRAGMENT_SIZE)
          \<and> signature_buffer_length f = ucast (of_nat (length (take (length ?sg0) buf)) :: size_t)"
    by blast
  then show ?thesis using v2 by simp
qed

lemma prepare_after_generate:
  assumes gen: "generate_spdu P v now seq timestep = Inr (base, v1)"
  shows "prepare_signed_fragments P v now seq timestep =
      (if scheme (pqc v) = ECDSA
       then (case sign_message_ecdsa P v1 (base \<lparr> signature_scheme := scheme_tag (scheme (pqc v)) \<rparr>) of
               Inl e \<Rightarrow> Inl e
             | Inr (spdu1, v2) \<Rightarrow> Inr ([spdu1], v2))
       else sign_message_falcon P v1 (base \<lparr> signature_scheme := scheme_tag (scheme (pqc v)) \<rparr>))"
  using generate_spdu_keeps [OF gen]
  by (simp add: prepare_signed_fragments_def gen)

lemma prepare_Inr_generate:
  assumes prep: "prepare_signed_fragments P v now seq timestep = Inr (fragments, v')"
  shows "\<exists>base v1. generate_spdu P v now seq timestep = Inr (base, v1)"
  using prep by (cases "generate_spdu P v now seq timestep") (simp_all add: prepare_signed_fragments_def)


lemma generate_spdu_base:
  assumes gen: "generate_spdu P v now seq timestep = Inr (base, v1)"
    and bm: "generate_bsm P v timestep = Inr new_bsm"
  shows "vehicle_id base = number v \<and> sequence_number base = seq
     \<and> data base = \<lparr> signedData =
                       \<lparr> tbsData = \<lparr> message = new_bsm,
                                     headerInfo = \<lparr> timestamp = now \<rparr> \<rparr>,
                         cert = vehicle_certificate_ecdsa v \<rparr>,
                     certificate_signature = assembly_certificate_signature P v
                        @ zero_bytes (72 - length (assembly_certificate_signature P v)) \<rparr>
     \<and> certificate_signature_buffer_length base = of_nat (length (assembly_certificate_signature P v))
     \<and> sign_calls v1 = sign_calls v @
           [Ecdsa_sign_call (sha256sum P (vehicle_certificate_ecdsa v)) (cert_private_ec_key v)]"
  using generate_spdu_Inr [OF gen bm] by simp

lemma prepare_ecdsa_case:
  assumes prep: "prepare_signed_fragments P v now seq timestep = Inr (fragments, v')"
    and gen: "generate_spdu P v now seq timestep = Inr (base, v1)"
    and e: "scheme (pqc v) = ECDSA"
  shows "\<exists>spdu1. sign_message_ecdsa P v1 (base \<lparr> signature_scheme := scheme_tag (scheme (pqc v)) \<rparr>)
            = Inr (spdu1, v') \<and> fragments = [spdu1]"
proof (cases "sign_message_ecdsa P v1 (base \<lparr> signature_scheme := scheme_tag (scheme (pqc v)) \<rparr>)")
  case (Inl a)
  with prep e show ?thesis by (simp add: prepare_after_generate [OF gen])
next
  case (Inr b)
  obtain s w where b: "b = (s, w)" by (cases b)
  with Inr prep e show ?thesis by (simp add: prepare_after_generate [OF gen])
qed


text \<open>
  C8.  Whenever \<open>prepare_signed_fragments\<close> returns the fragments of an SPDU, it has
  made exactly two calls to the signing primitives: first one ECDSA signature, with the
  certificate key, over the SHA-256 digest of the certificate's bytes, then the one
  payload signature.  So the certificate is signed once per SPDU, however many fragments
  there are.  Every fragment carries the vehicle's number, the sequence number, the tag
  of the configured scheme, the same signed data with that one certificate signature
  (zero-padded to 72 bytes) and its length, and all fragments carry the same fragment
  count and the same signature buffer length.
\<close>

theorem fragments_share_spdu_fields:
  assumes prep: "prepare_signed_fragments P v now seq timestep = Inr (fragments, v')"
    and dg: "cert_digest = sha256sum P (vehicle_certificate_ecdsa v)"
    and csg: "csg = ecdsa_sign P (length (sign_calls v)) cert_digest (cert_private_ec_key v)"
  shows "\<exists>new_bsm tbs. generate_bsm P v timestep = Inr new_bsm
       \<and> tbs = \<lparr> message = new_bsm, headerInfo = \<lparr> timestamp = now \<rparr> \<rparr>
       \<and> sign_calls v' = sign_calls v @
           [Ecdsa_sign_call cert_digest (cert_private_ec_key v),
            if scheme (pqc v) = ECDSA
            then Ecdsa_sign_call (sha256sum P (bytes_of_tbsData P tbs)) (private_ec_key v)
            else Falcon_sign_call (bytes_of_tbsData P tbs) (falcon_private_key v)]
       \<and> (\<forall>f \<in> set fragments.
             vehicle_id f = number v
           \<and> sequence_number f = seq
           \<and> signature_scheme f = scheme_tag (scheme (pqc v))
           \<and> data f = \<lparr> signedData = \<lparr> tbsData = tbs, cert = vehicle_certificate_ecdsa v \<rparr>,
                         certificate_signature = csg @ zero_bytes (72 - length csg) \<rparr>
           \<and> certificate_signature_buffer_length f = of_nat (length csg)
           \<and> (\<forall>g \<in> set fragments. fragment_count g = fragment_count f
                 \<and> signature_buffer_length g = signature_buffer_length f))"
proof -
  from prepare_Inr_generate [OF prep]
  obtain base v1 where gen: "generate_spdu P v now seq timestep = Inr (base, v1)" by blast
  from generate_spdu_bsm [OF gen] obtain new_bsm where
    bm: "generate_bsm P v timestep = Inr new_bsm" by blast
  define tbs where "tbs = \<lparr> message = new_bsm, headerInfo = \<lparr> timestamp = now \<rparr> \<rparr>"
  have ce: "assembly_certificate_signature P v = csg"
    by (simp add: assembly_certificate_signature_def csg dg)
  note g = generate_spdu_base [OF gen bm, unfolded ce, folded dg tbs_def]
  note k = generate_spdu_keeps [OF gen]
  let ?base = "base \<lparr> signature_scheme := scheme_tag (scheme (pqc v)) \<rparr>"
  have b: "vehicle_id ?base = number v" "sequence_number ?base = seq"
    "data ?base = \<lparr> signedData = \<lparr> tbsData = tbs, cert = vehicle_certificate_ecdsa v \<rparr>,
                         certificate_signature = csg @ zero_bytes (72 - length csg) \<rparr>"
    "certificate_signature_buffer_length ?base = of_nat (length csg)"
    "signature_scheme ?base = scheme_tag (scheme (pqc v))"
    using g by simp_all
  have tb: "tbsData (signedData (data ?base)) = tbs" unfolding b(3) by simp
  have c1: "sign_calls v1 = sign_calls v @ [Ecdsa_sign_call cert_digest (cert_private_ec_key v)]"
    using g by simp
  have main: "sign_calls v' = sign_calls v @
           [Ecdsa_sign_call cert_digest (cert_private_ec_key v),
            if scheme (pqc v) = ECDSA
            then Ecdsa_sign_call (sha256sum P (bytes_of_tbsData P tbs)) (private_ec_key v)
            else Falcon_sign_call (bytes_of_tbsData P tbs) (falcon_private_key v)]
       \<and> (\<forall>f \<in> set fragments.
             vehicle_id f = number v
           \<and> sequence_number f = seq
           \<and> signature_scheme f = scheme_tag (scheme (pqc v))
           \<and> data f = \<lparr> signedData = \<lparr> tbsData = tbs, cert = vehicle_certificate_ecdsa v \<rparr>,
                         certificate_signature = csg @ zero_bytes (72 - length csg) \<rparr>
           \<and> certificate_signature_buffer_length f = of_nat (length csg)
           \<and> (\<forall>g \<in> set fragments. fragment_count g = fragment_count f
                 \<and> signature_buffer_length g = signature_buffer_length f))"
  proof (cases "scheme (pqc v) = ECDSA")
    case True
    from prepare_ecdsa_case [OF prep gen True] obtain spdu1 where
      s: "sign_message_ecdsa P v1 ?base = Inr (spdu1, v')" and fr: "fragments = [spdu1]"
      by blast
    note e = sign_message_ecdsa_Inr [OF s, unfolded tb b]
    have c: "sign_calls v' = sign_calls v @
           [Ecdsa_sign_call cert_digest (cert_private_ec_key v),
            Ecdsa_sign_call (sha256sum P (bytes_of_tbsData P tbs)) (private_ec_key v)]"
      using e k by (simp add: c1)
    show ?thesis unfolding fr using c e True by simp
  next
    case False
    then have f: "scheme (pqc v) = FALCON" by (cases "scheme (pqc v)") simp_all
    have s: "sign_message_falcon P v1 ?base = Inr (fragments, v')"
      using prep False by (simp add: prepare_after_generate [OF gen])
    note e = sign_message_falcon_Inr [OF s, unfolded tb b]
    have c: "sign_calls v' = sign_calls v @
           [Ecdsa_sign_call cert_digest (cert_private_ec_key v),
            Falcon_sign_call (bytes_of_tbsData P tbs) (falcon_private_key v)]"
      using e k by (simp add: c1)
    have a: "\<forall>f \<in> set fragments.
             vehicle_id f = number v
           \<and> sequence_number f = seq
           \<and> signature_scheme f = scheme_tag FALCON
           \<and> data f = \<lparr> signedData = \<lparr> tbsData = tbs, cert = vehicle_certificate_ecdsa v \<rparr>,
                         certificate_signature = csg @ zero_bytes (72 - length csg) \<rparr>
           \<and> certificate_signature_buffer_length f = of_nat (length csg)
           \<and> (\<forall>g \<in> set fragments. fragment_count g = fragment_count f
                 \<and> signature_buffer_length g = signature_buffer_length f)"
      using e by (rule conjunct1)
    have ne: "(FALCON = ECDSA) = False" by simp
    from c a show ?thesis unfolding f ne if_False by (rule conjI)
  qed
  show ?thesis
    apply (rule exI [of _ new_bsm])
    apply (rule exI [of _ tbs])
    apply (rule conjI [OF bm])
    apply (rule conjI [OF tbs_def])
    apply (rule main)
    done
qed


lemma toy_prepare_falcon:
  "\<exists>fragments v'. prepare_signed_fragments toy_primitives toy_vehicle 7 0 0 = Inr (fragments, v')
      \<and> length fragments = 2"
proof -
  have "\<exists>base v1. generate_spdu toy_primitives toy_vehicle 7 0 0 = Inr (base, v1)"
    unfolding generate_spdu_def toy_generate_bsm
    by (simp add: toy_primitives_def toy_vehicle_def
        copy_n_def zero_bytes_def zero_data_def Let_def)
  then obtain base v1 where gen: "generate_spdu toy_primitives toy_vehicle 7 0 0 = Inr (base, v1)"
    by blast
  note k = generate_spdu_keeps [OF gen]
  note g = generate_spdu_base [OF gen toy_generate_bsm(1)]
  let ?base = "base \<lparr> signature_scheme := scheme_tag (scheme (pqc toy_vehicle)) \<rparr>"
  have key: "falcon_private_key v1 \<noteq> []" using k by (simp add: toy_vehicle_def)
  have sg: "[7, 3, 4] = falcon_sign toy_primitives (length (sign_calls v1))
                    (bytes_of_tbsData toy_primitives (tbsData (signedData (data ?base))))
                    (falcon_private_key v1)"
    using k g by (simp add: toy_primitives_def toy_vehicle_def)
  have n: "length [7, 3, 4 :: byte] \<le> 1536" by simp
  have fs: "2 = unat (clamp_fragment_size (falcon_fragment_size (pqc v1)) MAX_SIGNATURE_FRAGMENT_SIZE)"
    using k by (simp add: toy_vehicle_def clamp_fragment_size_def MAX_SIGNATURE_FRAGMENT_SIZE_def)
  have c: "2 = (length [7, 3, 4 :: byte] + 2 - 1) div 2" by simp
  have sch: "scheme (pqc toy_vehicle) \<noteq> ECDSA" by (simp add: toy_vehicle_def)
  show ?thesis
    using sch by (simp add: prepare_after_generate [OF gen]
        sign_message_falcon_result [OF key sg n fs c])
qed

theorem fragments_share_spdu_fields_witness:
  "\<exists>fragments v'. prepare_signed_fragments toy_primitives toy_vehicle 7 0 0 = Inr (fragments, v')
      \<and> length fragments = 2
      \<and> sign_calls v' = [Ecdsa_sign_call [] [1], Falcon_sign_call [7] [3, 4]]
      \<and> vehicle_id (fragments ! 0) = vehicle_id (fragments ! 1)
      \<and> sequence_number (fragments ! 0) = sequence_number (fragments ! 1)
      \<and> signature_scheme (fragments ! 0) = signature_scheme (fragments ! 1)
      \<and> data (fragments ! 0) = data (fragments ! 1)
      \<and> certificate_signature (data (fragments ! 1)) = 1 # zero_bytes 71
      \<and> fragment_count (fragments ! 0) = fragment_count (fragments ! 1)
      \<and> signature_buffer_length (fragments ! 0) = signature_buffer_length (fragments ! 1)"
proof -
  from toy_prepare_falcon obtain fragments v' where
    prep: "prepare_signed_fragments toy_primitives toy_vehicle 7 0 0 = Inr (fragments, v')"
    and l: "length fragments = 2" by blast
  have m: "fragments ! 0 \<in> set fragments" "fragments ! 1 \<in> set fragments"
    using l by simp_all
  note t = fragments_share_spdu_fields [OF prep refl refl, unfolded toy_generate_bsm, simplified]
  have calls: "sign_calls v' = [Ecdsa_sign_call [] [1], Falcon_sign_call [7] [3, 4]]"
    using t by (simp add: toy_primitives_def toy_vehicle_def)
  have csg: "ecdsa_sign toy_primitives (length (sign_calls toy_vehicle))
       (sha256sum toy_primitives (vehicle_certificate_ecdsa toy_vehicle))
       (cert_private_ec_key toy_vehicle) = [1]"
    by (simp add: toy_primitives_def toy_vehicle_def)
  from t have a: "\<forall>f \<in> set fragments.
             vehicle_id f = number toy_vehicle
           \<and> sequence_number f = 0
           \<and> signature_scheme f = scheme_tag (scheme (pqc toy_vehicle))
           \<and> data f = \<lparr> signedData = \<lparr> tbsData =
                                   \<lparr> message = \<lparr> latitude = 42, longitude = 77, elevation = 100,
                                                   speed = 0, heading = 0 \<rparr>,
                                     headerInfo = \<lparr> timestamp = 7 \<rparr> \<rparr>,
                            cert = vehicle_certificate_ecdsa toy_vehicle \<rparr>,
                         certificate_signature = [1] @ zero_bytes (72 - length [1 :: byte]) \<rparr>
           \<and> (\<forall>g \<in> set fragments. fragment_count g = fragment_count f
                 \<and> signature_buffer_length g = signature_buffer_length f)"
    unfolding csg by blast
  from a m have
      "vehicle_id (fragments ! 0) = vehicle_id (fragments ! 1)"
      "sequence_number (fragments ! 0) = sequence_number (fragments ! 1)"
      "signature_scheme (fragments ! 0) = signature_scheme (fragments ! 1)"
      "data (fragments ! 0) = data (fragments ! 1)"
      "fragment_count (fragments ! 0) = fragment_count (fragments ! 1)"
      "signature_buffer_length (fragments ! 0) = signature_buffer_length (fragments ! 1)"
    by metis+
  moreover from a m have "certificate_signature (data (fragments ! 1)) = 1 # zero_bytes 71"
    by (simp add: zero_bytes_def)
  ultimately show ?thesis using prep l calls by blast
qed

section \<open>Reassembly at the receiver\<close>

lemma unat_offset_plus_length:
  "unat ((ucast (off :: 32 word) :: size_t) + ucast (len :: 32 word)) = unat off + unat len"
proof -
  have a: "unat (ucast off :: size_t) = unat off" "unat (ucast len :: size_t) = unat len"
    by (rule unat_ucast_32_64)+
  have "unat off < 2 ^ 32" "unat len < 2 ^ 32"
    using unsigned_less [of off] unsigned_less [of len] by simp_all
  then have "unat (ucast off :: size_t) + unat (ucast len :: size_t) < 2 ^ LENGTH(64)"
    unfolding a by simp
  then show ?thesis unfolding a [symmetric] by (simp add: unat_add_lem [THEN iffD1])
qed

text \<open>\<open>store_fragment\<close> with the sizes read as natural numbers: the sum cannot wrap.\<close>

lemma store_fragment_nat:
  "store_fragment entry incoming =
     (if unat (fragment_index incoming) < length (fragments_received entry)
         \<and> \<not> fragments_received entry ! unat (fragment_index incoming)
         \<and> unat (signature_offset incoming) + unat (fragment_length incoming)
              \<le> length (signature_buffer entry)
      then (case copy_n (signature_fragment incoming) (unat (fragment_length incoming))
                   (signature_buffer entry) (unat (signature_offset incoming)) of
              Inl e \<Rightarrow> Inl e
            | Inr buf \<Rightarrow>
                Inr (entry \<lparr> signature_buffer := buf,
                             fragments_received :=
                               (fragments_received entry) [unat (fragment_index incoming) := True] \<rparr>))
      else Inr entry)"
  by (simp add: store_fragment_def Let_def unat_offset_plus_length unat_ucast_32_64)


text \<open>
  C9.  The claim does not hold of the code.  The datagram below passes every check of the
  receiver on a fresh entry (its index 0 is in range and not yet received, and offset 0
  plus length 1000 does not exceed the 1000 bytes allocated from its own declared
  signature buffer length), yet the copy of 1000 bytes reads the 512-byte
  \<open>signature_fragment\<close> array beyond its end: the fragment length is never compared
  with the size of the array.
\<close>

theorem oversized_fragment_read_out_of_bounds:
  "length (signature_fragment oversized_fragment) = 512
   \<and> unat (fragment_index oversized_fragment)
        < length (fragments_received (init_entry PendingMessage_init oversized_fragment 0))
   \<and> \<not> fragments_received (init_entry PendingMessage_init oversized_fragment 0)
          ! unat (fragment_index oversized_fragment)
   \<and> unat (signature_offset oversized_fragment) + unat (fragment_length oversized_fragment)
        \<le> length (signature_buffer (init_entry PendingMessage_init oversized_fragment 0))
   \<and> unat (fragment_length oversized_fragment) = 1000
   \<and> store_fragment (init_entry PendingMessage_init oversized_fragment 0) oversized_fragment
        = Inl Undefined_Behaviour
   \<and> receive_datagram toy_primitives False receiver_init oversized_fragment 0
        = Inl Undefined_Behaviour"
  by (simp add: oversized_fragment_def spdu_fragment_init_def init_entry_def PendingMessage_init_def
      store_fragment_def copy_n_def zero_bytes_def MAX_SIGNATURE_FRAGMENT_SIZE_def
      receive_datagram_def note_first_fragment_def receiver_init_def lookup_entry_def
      update_entry_def Let_def)












lemma note_first_fragment_keeps:
  "pending_messages (note_first_fragment st t) = pending_messages st"
  "completed_messages (note_first_fragment st t) = completed_messages st"
  by (simp_all add: note_first_fragment_def)

lemma receive_datagram_incomplete:
  assumes "update_entry (lookup_entry (pending_messages st)
             (make_message_key (vehicle_id d) (sequence_number d))) d t = Inr e1"
    and "\<not> complete_entry e1"
  shows "receive_datagram P gui st d t =
     Inr ((note_first_fragment st t)
            \<lparr> pending_messages := (pending_messages st)
                 (make_message_key (vehicle_id d) (sequence_number d) \<mapsto> e1) \<rparr>)"
  using assms by (simp add: receive_datagram_def note_first_fragment_keeps Let_def)










section \<open>When a reassembly entry is set up\<close>
















section \<open>Fragmentation followed by reassembly\<close>

lemma falcon_slice_fields:
  assumes k1: "0 < k" and k2: "k \<le> 512" and n: "length sg \<le> 1536"
    and c: "c = (length sg + k - 1) div k" and i: "i < c"
  shows "unat (fragment_index (falcon_slice spdu sg k c i)) = i"
    and "unat (fragment_count (falcon_slice spdu sg k c i)) = c"
    and "unat (signature_buffer_length (falcon_slice spdu sg k c i)) = length sg"
    and "unat (signature_offset (falcon_slice spdu sg k c i)) = i * k"
    and "unat (fragment_length (falcon_slice spdu sg k c i)) = min k (length sg - i * k)"
    and "signature_fragment (falcon_slice spdu sg k c i) =
           take k (drop (i * k) sg) @ zero_bytes (512 - min k (length sg - i * k))"
    and "i * k < length sg"
proof -
  have cn: "c \<le> length sg" unfolding c by (rule fragment_number_bound [OF k1])
  show ik: "i * k < length sg" using index_below_ceiling [OF k1] i by (simp add: c)
  have a: "i < 2 ^ 16" "c < 2 ^ 16" "length sg < 2 ^ 32" "i * k < 2 ^ 32"
      "min k (length sg - i * k) < 2 ^ 32"
    using i cn n ik k2 by simp_all
  show "unat (fragment_index (falcon_slice spdu sg k c i)) = i"
    using a by (simp add: falcon_slice_def unat_of_nat)
  show "unat (fragment_count (falcon_slice spdu sg k c i)) = c"
    using a by (simp add: falcon_slice_def unat_of_nat)
  show "unat (signature_buffer_length (falcon_slice spdu sg k c i)) = length sg"
    using a by (simp add: falcon_slice_def unat_of_nat)
  show "unat (signature_offset (falcon_slice spdu sg k c i)) = i * k"
    using a by (simp add: falcon_slice_def unat_of_nat del: of_nat_mult)
  show "unat (fragment_length (falcon_slice spdu sg k c i)) = min k (length sg - i * k)"
    using a by (simp add: falcon_slice_def unat_of_nat del: of_nat_mult)
  show "signature_fragment (falcon_slice spdu sg k c i) =
           take k (drop (i * k) sg) @ zero_bytes (512 - min k (length sg - i * k))"
    by (simp add: falcon_slice_def)
qed

lemma concat_slices:
  "concat (map (\<lambda>i. take k (drop (i * k) sg)) [0 ..< j]) = take (j * k) sg"
proof (induction j)
  case 0
  show ?case by simp
next
  case (Suc j)
  have "take (j * k) sg @ take k (drop (j * k) sg) = take (j * k + k) sg"
    by (simp add: take_add)
  then show ?case using Suc by (simp add: add.commute)
qed

lemma bitmap_mark:
  assumes "j < c"
  shows "(map (\<lambda>i. i \<in> J) [0 ..< c]) [j := True] = map (\<lambda>i. i \<in> insert j J) [0 ..< c]"
  using assms by (intro nth_equalityI) (auto simp: nth_list_update)

lemma div_is_index:
  assumes "j * k \<le> p" and "p < j * k + k"
  shows "p div k = (j :: nat)"
proof -
  have k: "0 < k" using assms by (cases k) auto
  obtain r where p: "p = j * k + r" using assms(1) by (metis le_Suc_ex)
  then have "r < k" using assms(2) by simp
  then show ?thesis using k by (simp add: p)
qed

lemma upt_three:
  assumes "a \<le> b" and "b \<le> (n :: nat)"
  shows "[0 ..< n] = [0 ..< a] @ [a ..< b] @ [b ..< n]"
proof -
  have "[0 ..< n] = [0 ..< a] @ [a ..< n]"
    using upt_add_eq_append [of 0 a "n - a"] assms by simp
  also have "[a ..< n] = [a ..< b] @ [b ..< n]"
    using upt_add_eq_append [of a b "n - b"] assms by simp
  finally show ?thesis .
qed

lemma slice_into_buffer:
  assumes jk: "j * k < length sg" and k1: "0 < k" and k2: "k \<le> 512"
  shows "copy_n (take k (drop (j * k) sg) @ zero_bytes (512 - min k (length sg - j * k)))
            (min k (length sg - j * k))
            (map (\<lambda>p. if p div k \<in> J then sg ! p else 0) [0 ..< length sg]) (j * k)
         = Inr (map (\<lambda>p. if p div k \<in> insert j J then sg ! p else 0) [0 ..< length sg])"
proof -
  let ?n = "length sg" and ?l = "min k (length sg - j * k)"
  let ?f = "\<lambda>p. if p div k \<in> J then sg ! p else 0"
  let ?g = "\<lambda>p. if p div k \<in> insert j J then sg ! p else 0"
  let ?src = "take k (drop (j * k) sg) @ zero_bytes (512 - ?l)"
  have l1: "?l \<le> k" "?l \<le> ?n - j * k" "j * k + ?l \<le> ?n" using jk by simp_all
  have len: "?l \<le> length ?src" using k2 l1 by (simp add: zero_bytes_def)
  have dst: "j * k + ?l \<le> length (map ?f [0 ..< ?n])" using l1 by simp
  have split: "[0 ..< ?n] = [0 ..< j * k] @ [j * k ..< j * k + ?l] @ [j * k + ?l ..< ?n]"
    by (rule upt_three) (use l1 in simp_all)
  have pre: "take (j * k) (map ?f [0 ..< ?n]) = map ?g [0 ..< j * k]"
  proof -
    have "take (j * k) (map ?f [0 ..< ?n]) = map ?f [0 ..< j * k]"
      using jk by (simp add: take_map)
    also have "\<dots> = map ?g [0 ..< j * k]"
    proof (rule map_cong [OF refl])
      fix p assume "p \<in> set [0 ..< j * k]"
      then have "p < j * k" by simp
      then have "p div k < j" by (rule less_mult_imp_div_less)
      then show "?f p = ?g p" by simp
    qed
    finally show ?thesis .
  qed
  have mid: "take ?l ?src = map ?g [j * k ..< j * k + ?l]"
  proof (rule nth_equalityI)
    show "length (take ?l ?src) = length (map ?g [j * k ..< j * k + ?l])"
      using len by simp
  next
    fix i assume "i < length (take ?l ?src)"
    then have i: "i < ?l" by simp
    then have ik: "i < k" and jn: "j * k + i < ?n" using jk by linarith+
    have d: "(j * k + i) div k = j" by (rule div_is_index) (use ik in simp_all)
    have "take ?l ?src ! i = sg ! (j * k + i)"
      using i ik jn by (simp add: nth_append)
    also have "\<dots> = ?g (j * k + i)" by (simp add: d)
    finally show "take ?l ?src ! i = map ?g [j * k ..< j * k + ?l] ! i"
      using i by simp
  qed
  have post: "drop (j * k + ?l) (map ?f [0 ..< ?n]) = map ?g [j * k + ?l ..< ?n]"
  proof -
    have "drop (j * k + ?l) (map ?f [0 ..< ?n]) = map ?f [j * k + ?l ..< ?n]"
      by (simp add: drop_map)
    also have "\<dots> = map ?g [j * k + ?l ..< ?n]"
    proof (rule map_cong [OF refl])
      fix p assume "p \<in> set [j * k + ?l ..< ?n]"
      then have p: "j * k + ?l \<le> p" "p < ?n" by simp_all
      then have "?l = k" using l1 by (simp add: min_def split: if_splits)
      then have "Suc j * k \<le> p" using p by (simp add: add.commute)
      then have "Suc j \<le> p div k" using k1 by (simp add: less_eq_div_iff_mult_less_eq)
      then show "?f p = ?g p" by simp
    qed
    finally show ?thesis .
  qed
  have "copy_n ?src ?l (map ?f [0 ..< ?n]) (j * k)
      = Inr (take (j * k) (map ?f [0 ..< ?n]) @ take ?l ?src @ drop (j * k + ?l) (map ?f [0 ..< ?n]))"
    unfolding copy_n_def using len dst by (simp only: if_True simp_thms)
  also have "\<dots> = Inr (map ?g [0 ..< j * k] @ map ?g [j * k ..< j * k + ?l] @ map ?g [j * k + ?l ..< ?n])"
    by (simp only: pre mid post)
  also have "\<dots> = Inr (map ?g ([0 ..< j * k] @ [j * k ..< j * k + ?l] @ [j * k + ?l ..< ?n]))"
    by (simp only: map_append)
  also have "\<dots> = Inr (map ?g [0 ..< ?n])"
    by (simp only: split [symmetric])
  finally show ?thesis .
qed


lemma partial_entry_simps:
  "signature_buffer (partial_entry spdu sg k c i0 t0 J)
     = map (\<lambda>p. if p div k \<in> J then sg ! p else 0) [0 ..< length sg]"
  "fragments_received (partial_entry spdu sg k c i0 t0 J) = map (\<lambda>i. i \<in> J) [0 ..< c]"
  "first_fragment_time (partial_entry spdu sg k c i0 t0 J) = t0"
  "template_fragment (partial_entry spdu sg k c i0 t0 J) =
     (falcon_slice spdu sg k c i0)
       \<lparr> fragment_index := 0, fragment_length := 0,
         signature_fragment := zero_bytes (unat MAX_SIGNATURE_FRAGMENT_SIZE) \<rparr>"
  by (simp_all add: partial_entry_def)

lemma update_template_slice:
  "update_template (partial_entry spdu sg k c i0 t0 J) (falcon_slice spdu sg k c i)
     = partial_entry spdu sg k c i0 t0 J"
  by (simp add: update_template_def partial_entry_def falcon_slice_def)

lemma store_fragment_slice:
  assumes k1: "0 < k" and k2: "k \<le> 512" and n: "length sg \<le> 1536"
    and c: "c = (length sg + k - 1) div k" and j: "j < c" and nj: "j \<notin> J"
  shows "store_fragment (partial_entry spdu sg k c i0 t0 J) (falcon_slice spdu sg k c j)
           = Inr (partial_entry spdu sg k c i0 t0 (insert j J))"
proof -
  note f = falcon_slice_fields [OF k1 k2 n c j]
  have jk: "j * k < length sg" by (rule f(7))
  have cond: "unat (fragment_index (falcon_slice spdu sg k c j))
                < length (fragments_received (partial_entry spdu sg k c i0 t0 J))
         \<and> \<not> fragments_received (partial_entry spdu sg k c i0 t0 J)
               ! unat (fragment_index (falcon_slice spdu sg k c j))
         \<and> unat (signature_offset (falcon_slice spdu sg k c j))
             + unat (fragment_length (falcon_slice spdu sg k c j))
              \<le> length (signature_buffer (partial_entry spdu sg k c i0 t0 J))"
    unfolding f(1,4,5) partial_entry_simps
    using j jk nj by simp
  have cp: "copy_n (signature_fragment (falcon_slice spdu sg k c j))
              (unat (fragment_length (falcon_slice spdu sg k c j)))
              (signature_buffer (partial_entry spdu sg k c i0 t0 J))
              (unat (signature_offset (falcon_slice spdu sg k c j)))
          = Inr (map (\<lambda>p. if p div k \<in> insert j J then sg ! p else 0) [0 ..< length sg])"
    unfolding f(4,5,6) partial_entry_simps by (rule slice_into_buffer [OF jk k1 k2])
  have "store_fragment (partial_entry spdu sg k c i0 t0 J) (falcon_slice spdu sg k c j)
      = Inr ((partial_entry spdu sg k c i0 t0 J)
               \<lparr> signature_buffer := map (\<lambda>p. if p div k \<in> insert j J then sg ! p else 0) [0 ..< length sg],
                 fragments_received :=
                   (fragments_received (partial_entry spdu sg k c i0 t0 J))
                     [unat (fragment_index (falcon_slice spdu sg k c j)) := True] \<rparr>)"
    unfolding store_fragment_nat [of "partial_entry spdu sg k c i0 t0 J"] cp using cond by simp
  also have "\<dots> = Inr (partial_entry spdu sg k c i0 t0 (insert j J))"
    unfolding f(1) partial_entry_simps bitmap_mark [OF j]
    by (simp add: partial_entry_def)
  finally show ?thesis .
qed

lemma partial_entry_nonempty:
  assumes "j * k < length sg"
  shows "signature_buffer (partial_entry spdu sg k c i0 t0 J) \<noteq> []"
  using assms by (auto simp: partial_entry_simps)

lemma update_entry_slice:
  assumes k1: "0 < k" and k2: "k \<le> 512" and n: "length sg \<le> 1536"
    and c: "c = (length sg + k - 1) div k" and j: "j < c" and nj: "j \<notin> J"
  shows "update_entry (partial_entry spdu sg k c i0 t0 J) (falcon_slice spdu sg k c j) t
           = Inr (partial_entry spdu sg k c i0 t0 (insert j J))"
proof -
  have "j * k < length sg" by (rule falcon_slice_fields(7) [OF k1 k2 n c j])
  then have "signature_buffer (partial_entry spdu sg k c i0 t0 J) \<noteq> []"
    by (rule partial_entry_nonempty)
  then have i: "init_entry (partial_entry spdu sg k c i0 t0 J) (falcon_slice spdu sg k c j) t
      = partial_entry spdu sg k c i0 t0 J" by (simp add: init_entry_def)
  show ?thesis
    unfolding update_entry_def i store_fragment_slice [OF k1 k2 n c j nj]
    by (simp add: update_template_slice)
qed

lemma update_entry_first_slice:
  assumes k1: "0 < k" and k2: "k \<le> 512" and n: "length sg \<le> 1536"
    and c: "c = (length sg + k - 1) div k" and j: "i0 < c"
  shows "update_entry PendingMessage_init (falcon_slice spdu sg k c i0) t0
           = Inr (partial_entry spdu sg k c i0 t0 {i0})"
proof -
  note f = falcon_slice_fields [OF k1 k2 n c j]
  have i: "init_entry PendingMessage_init (falcon_slice spdu sg k c i0) t0
      = partial_entry spdu sg k c i0 t0 {}"
    unfolding init_entry_def f(2,3)
    by (simp add: PendingMessage_init_def partial_entry_def zero_bytes_def map_replicate_const)
  have "i0 * k < length sg" by (rule f(7))
  then have "signature_buffer (partial_entry spdu sg k c i0 t0 {}) \<noteq> []"
    by (rule partial_entry_nonempty)
  then have i': "init_entry (partial_entry spdu sg k c i0 t0 {}) (falcon_slice spdu sg k c i0) t0
      = partial_entry spdu sg k c i0 t0 {}" by (simp add: init_entry_def)
  have "update_entry PendingMessage_init (falcon_slice spdu sg k c i0) t0
      = update_entry (partial_entry spdu sg k c i0 t0 {}) (falcon_slice spdu sg k c i0) t0"
    unfolding update_entry_def i i' ..
  also have "\<dots> = Inr (partial_entry spdu sg k c i0 t0 (insert i0 {}))"
    by (rule update_entry_slice [OF k1 k2 n c j]) simp
  finally show ?thesis by simp
qed

lemma partial_entry_complete:
  "complete_entry (partial_entry spdu sg k c i0 t0 J) \<longleftrightarrow> {0 ..< c} \<subseteq> J"
  by (auto simp: complete_entry_def partial_entry_def list_all_iff)

lemma partial_entry_full:
  assumes k1: "0 < k" and cov: "length sg \<le> c * k" and full: "{0 ..< c} \<subseteq> J"
  shows "signature_buffer (partial_entry spdu sg k c i0 t0 J) = sg"
    and "fragments_received (partial_entry spdu sg k c i0 t0 J) = replicate c True"
proof -
  have "map (\<lambda>p. if p div k \<in> J then sg ! p else 0) [0 ..< length sg] = map ((!) sg) [0 ..< length sg]"
  proof (rule map_cong [OF refl])
    fix p assume "p \<in> set [0 ..< length sg]"
    then have "p < c * k" using cov by simp
    then have "p div k < c" by (rule less_mult_imp_div_less)
    then show "(if p div k \<in> J then sg ! p else 0) = sg ! p" using full by auto
  qed
  then show "signature_buffer (partial_entry spdu sg k c i0 t0 J) = sg"
    by (simp add: partial_entry_simps map_nth)
  have "map (\<lambda>i. i \<in> J) [0 ..< c] = map (\<lambda>i. True) [0 ..< c]"
    using full by (intro map_cong [OF refl]) auto
  then show "fragments_received (partial_entry spdu sg k c i0 t0 J) = replicate c True"
    by (simp add: partial_entry_simps map_replicate_const)
qed

lemma update_entries_slices:
  assumes k1: "0 < k" and k2: "k \<le> 512" and n: "length sg \<le> 1536"
    and c: "c = (length sg + k - 1) div k"
  shows "distinct is \<Longrightarrow> set is \<inter> J = {} \<Longrightarrow> set is \<subseteq> {0 ..< c} \<Longrightarrow> length ts = length is \<Longrightarrow>
     update_entries (partial_entry spdu sg k c i0 t0 J)
        (zip (map (falcon_slice spdu sg k c) is) ts)
       = Inr (partial_entry spdu sg k c i0 t0 (J \<union> set is))"
proof (induction "is" arbitrary: J ts)
  case Nil
  then show ?case by simp
next
  case (Cons j "is")
  from Cons.prems(4) obtain t ts' where ts: "ts = t # ts'" and l: "length ts' = length is"
    by (cases ts) auto
  have j: "j < c" and nj: "j \<notin> J" using Cons.prems(2,3) by auto
  have d: "distinct is" and i: "set is \<inter> insert j J = {}" and s: "set is \<subseteq> {0 ..< c}"
    using Cons.prems(1,2,3) by auto
  have u: "J \<union> set (j # is) = insert j J \<union> set is" by auto
  show ?case
    unfolding ts u using Cons.IH [OF d i s l]
    by (simp add: update_entry_slice [OF k1 k2 n c j nj])
qed

lemma update_entries_all_slices:
  assumes k1: "0 < k" and k2: "k \<le> 512" and n: "length sg \<le> 1536"
    and c: "c = (length sg + k - 1) div k"
    and d: "distinct is" and s: "set is = {0 ..< c}" and l: "length ts = length is"
  shows "\<exists>e. update_entries PendingMessage_init (zip (map (falcon_slice spdu sg k c) is) ts) = Inr e
      \<and> signature_buffer e = sg
      \<and> fragments_received e = replicate c True"
proof (cases "is")
  case Nil
  then have "c = 0" using s by simp
  moreover have "length sg \<le> c * k" unfolding c using ceiling_covers [OF k1] by simp
  ultimately show ?thesis using Nil by (simp add: PendingMessage_init_def)
next
  case (Cons i0 is')
  with l obtain t0 ts' where ts: "ts = t0 # ts'" and l': "length ts' = length is'"
    by (cases ts) auto
  have j: "i0 < c" using s Cons by auto
  have d': "distinct is'" and i: "set is' \<inter> {i0} = {}" and s': "set is' \<subseteq> {0 ..< c}"
    using d s Cons by auto
  have full: "{0 ..< c} \<subseteq> {i0} \<union> set is'" using s Cons by auto
  have cov: "length sg \<le> c * k" unfolding c using ceiling_covers [OF k1] by simp
  have r: "update_entries PendingMessage_init (zip (map (falcon_slice spdu sg k c) is) ts)
      = Inr (partial_entry spdu sg k c i0 t0 ({i0} \<union> set is'))"
    unfolding Cons ts
    using update_entries_slices [OF k1 k2 n c d' i s' l', of spdu i0 t0]
    by (simp add: update_entry_first_slice [OF k1 k2 n c j])
  show ?thesis unfolding r using partial_entry_full [OF k1 cov full] by simp
qed

lemma reassembling_simps:
  "pending_messages (reassembling st key e t0) key = Some e"
  "lookup_entry (pending_messages (reassembling st key e t0)) key = e"
  "completed_messages (reassembling st key e t0) = completed_messages st"
  "printed (reassembling st key e t0) = printed st"
  "reassembling (reassembling st key e t0) key e1 t = reassembling st key e1 t0"
  by (simp_all add: reassembling_def note_first_fragment_def lookup_entry_def)

lemma receive_datagram_stores:
  assumes "update_entry (lookup_entry (pending_messages st) key) d t = Inr e1"
    and "\<not> complete_entry e1"
    and "key = make_message_key (vehicle_id d) (sequence_number d)"
  shows "receive_datagram P gui st d t = Inr (reassembling st key e1 t)"
  using receive_datagram_incomplete [of st d t e1 P gui] assms
  by (simp add: reassembling_def)

lemma receive_datagram_completes:
  assumes "update_entry (lookup_entry (pending_messages st) key) d t = Inr e1"
    and "complete_entry e1"
    and "key = make_message_key (vehicle_id d) (sequence_number d)"
    and "verify_message P (template_fragment e1) (signature_buffer e1) t (uint (vehicle_id d)) = Inr valid"
  shows "\<exists>st'. receive_datagram P gui st d t = Inr st'
     \<and> printed st' = printed st @ [(template_fragment e1, valid)]
     \<and> completed_messages st' = completed_messages st + 1
     \<and> pending_messages st' key = None"
  using assms
  by (simp add: receive_datagram_def Let_def note_first_fragment_def)

lemma falcon_slice_key:
  "make_message_key (vehicle_id (falcon_slice spdu sg k c i)) (sequence_number (falcon_slice spdu sg k c i))
     = make_message_key (vehicle_id spdu) (sequence_number spdu)"
  "vehicle_id (falcon_slice spdu sg k c i) = vehicle_id spdu"
  "sequence_number (falcon_slice spdu sg k c i) = sequence_number spdu"
  by (simp_all add: falcon_slice_def)

lemma receive_loop_slices:
  assumes k1: "0 < k" and k2: "k \<le> 512" and n: "length sg \<le> 1536"
    and c: "c = (length sg + k - 1) div k"
    and key: "key = make_message_key (vehicle_id spdu) (sequence_number spdu)"
    and lt: "completed_messages st < num"
  shows "is \<noteq> [] \<Longrightarrow> distinct is \<Longrightarrow> set is \<inter> J = {} \<Longrightarrow> J \<union> set is = {0 ..< c} \<Longrightarrow>
     length ts = length is \<Longrightarrow>
     verify_message P (template_fragment (partial_entry spdu sg k c i0 t0 J)) sg (last ts)
        (uint (vehicle_id spdu)) = Inr valid \<Longrightarrow>
     \<exists>st'. receive_loop P gui num (reassembling st key (partial_entry spdu sg k c i0 t0 J) t0)
              (map Some (zip (map (falcon_slice spdu sg k c) is) ts)) = Inr st'
        \<and> printed st' = printed st @ [(template_fragment (partial_entry spdu sg k c i0 t0 J), valid)]
        \<and> completed_messages st' = completed_messages st + 1
        \<and> pending_messages st' key = None"
proof (induction "is" arbitrary: J ts)
  case Nil
  then show ?case by simp
next
  case (Cons j "is")
  let ?X = "reassembling st key (partial_entry spdu sg k c i0 t0 J) t0"
  let ?d = "falcon_slice spdu sg k c j"
  let ?J = "insert j J"
  from Cons.prems(5) obtain t ts' where ts: "ts = t # ts'" and l: "length ts' = length is"
    by (cases ts) auto
  have j: "j < c" and nj: "j \<notin> J" using Cons.prems(3,4) by auto
  have d: "distinct is" and i: "set is \<inter> ?J = {}" and u: "?J \<union> set is = {0 ..< c}"
    using Cons.prems(2,3,4) by auto
  have kd: "key = make_message_key (vehicle_id ?d) (sequence_number ?d)"
    by (simp add: key falcon_slice_key)
  have ue: "update_entry (lookup_entry (pending_messages ?X) key) ?d t
      = Inr (partial_entry spdu sg k c i0 t0 ?J)"
    by (simp add: reassembling_simps update_entry_slice [OF k1 k2 n c j nj])
  have ltX: "completed_messages ?X < num" using lt by (simp add: reassembling_simps)
  have cov: "length sg \<le> c * k" unfolding c using ceiling_covers [OF k1] by simp
  have tp: "template_fragment (partial_entry spdu sg k c i0 t0 ?J)
          = template_fragment (partial_entry spdu sg k c i0 t0 J)"
    by (simp add: partial_entry_simps)
  show ?case
  proof (cases "is = []")
    case True
    then have e: "ts' = []" using l by simp
    have full: "{0 ..< c} \<subseteq> ?J" using u True by auto
    have ce: "complete_entry (partial_entry spdu sg k c i0 t0 ?J)"
      using full by (simp add: partial_entry_complete)
    have b: "signature_buffer (partial_entry spdu sg k c i0 t0 ?J) = sg"
      by (rule partial_entry_full(1) [OF k1 cov full])
    have v: "verify_message P (template_fragment (partial_entry spdu sg k c i0 t0 ?J))
               (signature_buffer (partial_entry spdu sg k c i0 t0 ?J)) t (uint (vehicle_id ?d))
             = Inr valid"
      unfolding b tp using Cons.prems(6) by (simp add: ts e falcon_slice_key)
    from receive_datagram_completes [OF ue ce kd v, of gui]
    obtain st' where r: "receive_datagram P gui ?X ?d t = Inr st'"
      and p: "printed st' = printed ?X @ [(template_fragment (partial_entry spdu sg k c i0 t0 ?J), valid)]"
      and cm: "completed_messages st' = completed_messages ?X + 1"
      and pm: "pending_messages st' key = None" by blast
    have "receive_loop P gui num ?X (map Some (zip (map (falcon_slice spdu sg k c) (j # is)) ts))
        = Inr st'"
      unfolding True ts e using ltX r by simp
    then show ?thesis using p cm pm by (simp add: reassembling_simps tp)
  next
    case False
    then obtain m where m: "m \<in> set is" by (cases "is") auto
    then have "m \<in> {0 ..< c}" "m \<notin> ?J" using u i by auto
    then have nc: "\<not> complete_entry (partial_entry spdu sg k c i0 t0 ?J)"
      by (auto simp: partial_entry_complete)
    have ne: "ts' \<noteq> []" using False l by auto
    have r: "receive_datagram P gui ?X ?d t
        = Inr (reassembling st key (partial_entry spdu sg k c i0 t0 ?J) t0)"
      using receive_datagram_stores [OF ue nc kd, of P gui] by (simp add: reassembling_simps)
    have v: "verify_message P (template_fragment (partial_entry spdu sg k c i0 t0 ?J)) sg (last ts')
        (uint (vehicle_id spdu)) = Inr valid"
      unfolding tp using Cons.prems(6) ne by (simp add: ts)
    from Cons.IH [OF False d i u l v] obtain st' where
      "receive_loop P gui num (reassembling st key (partial_entry spdu sg k c i0 t0 ?J) t0)
              (map Some (zip (map (falcon_slice spdu sg k c) is) ts')) = Inr st'"
      "printed st' = printed st @ [(template_fragment (partial_entry spdu sg k c i0 t0 ?J), valid)]"
      "completed_messages st' = completed_messages st + 1"
      "pending_messages st' key = None" by blast
    then show ?thesis unfolding ts using ltX r by (simp add: tp)
  qed
qed

lemma receive_loop_all_slices:
  assumes k1: "0 < k" and k2: "k \<le> 512" and n: "length sg \<le> 1536"
    and c: "c = (length sg + k - 1) div k"
    and key: "key = make_message_key (vehicle_id spdu) (sequence_number spdu)"
    and lt: "completed_messages st < num"
    and none: "pending_messages st key = None"
    and ne: "is \<noteq> []" and d: "distinct is" and s: "set is = {0 ..< c}"
    and l: "length ts = length is"
    and v: "verify_message P
              ((falcon_slice spdu sg k c (hd is))
                 \<lparr> fragment_index := 0, fragment_length := 0,
                   signature_fragment := zero_bytes (unat MAX_SIGNATURE_FRAGMENT_SIZE) \<rparr>)
              sg (last ts) (uint (vehicle_id spdu)) = Inr valid"
  shows "\<exists>st'. receive_loop P gui num st
              (map Some (zip (map (falcon_slice spdu sg k c) is) ts)) = Inr st'
        \<and> printed st' = printed st @
             [((falcon_slice spdu sg k c (hd is))
                 \<lparr> fragment_index := 0, fragment_length := 0,
                   signature_fragment := zero_bytes (unat MAX_SIGNATURE_FRAGMENT_SIZE) \<rparr>, valid)]
        \<and> completed_messages st' = completed_messages st + 1
        \<and> pending_messages st' key = None"
proof -
  from ne obtain i0 is' where isc: "is = i0 # is'" by (cases "is") auto
  with l obtain t0 ts' where ts: "ts = t0 # ts'" and l': "length ts' = length is'"
    by (cases ts) auto
  let ?d = "falcon_slice spdu sg k c i0"
  have j: "i0 < c" using s isc by auto
  have d': "distinct is'" and i: "set is' \<inter> {i0} = {}" and u: "{i0} \<union> set is' = {0 ..< c}"
    using d s isc by auto
  have kd: "key = make_message_key (vehicle_id ?d) (sequence_number ?d)"
    by (simp add: key falcon_slice_key)
  have ue: "update_entry (lookup_entry (pending_messages st) key) ?d t0
      = Inr (partial_entry spdu sg k c i0 t0 {i0})"
    using none by (simp add: lookup_entry_def update_entry_first_slice [OF k1 k2 n c j])
  have cov: "length sg \<le> c * k" unfolding c using ceiling_covers [OF k1] by simp
  have v0: "verify_message P (template_fragment (partial_entry spdu sg k c i0 t0 {i0})) sg (last ts)
              (uint (vehicle_id spdu)) = Inr valid"
    using v by (simp add: partial_entry_simps isc)
  show ?thesis
  proof (cases "is' = []")
    case True
    then have e: "ts' = []" using l' by simp
    have full: "{0 ..< c} \<subseteq> {i0}" using u True by auto
    have ce: "complete_entry (partial_entry spdu sg k c i0 t0 {i0})"
      using full by (simp add: partial_entry_complete)
    have b: "signature_buffer (partial_entry spdu sg k c i0 t0 {i0}) = sg"
      by (rule partial_entry_full(1) [OF k1 cov full])
    have v': "verify_message P (template_fragment (partial_entry spdu sg k c i0 t0 {i0}))
               (signature_buffer (partial_entry spdu sg k c i0 t0 {i0})) t0 (uint (vehicle_id ?d))
             = Inr valid"
      unfolding b using v0 by (simp add: ts e falcon_slice_key)
    from receive_datagram_completes [OF ue ce kd v', of gui]
    obtain st' where r: "receive_datagram P gui st ?d t0 = Inr st'"
      and p: "printed st' = printed st @ [(template_fragment (partial_entry spdu sg k c i0 t0 {i0}), valid)]"
      and cm: "completed_messages st' = completed_messages st + 1"
      and pm: "pending_messages st' key = None" by blast
    have "receive_loop P gui num st (map Some (zip (map (falcon_slice spdu sg k c) is) ts)) = Inr st'"
      unfolding isc True ts e using lt r by simp
    then show ?thesis using p cm pm by (simp add: partial_entry_simps isc)
  next
    case False
    then obtain m where m: "m \<in> set is'" by (cases is') auto
    then have "m \<in> {0 ..< c}" "m \<notin> {i0}" using u i by auto
    then have nc: "\<not> complete_entry (partial_entry spdu sg k c i0 t0 {i0})"
      by (auto simp: partial_entry_complete)
    have ne': "ts' \<noteq> []" using False l' by auto
    have r: "receive_datagram P gui st ?d t0
        = Inr (reassembling st key (partial_entry spdu sg k c i0 t0 {i0}) t0)"
      by (rule receive_datagram_stores [OF ue nc kd])
    have v': "verify_message P (template_fragment (partial_entry spdu sg k c i0 t0 {i0})) sg (last ts')
        (uint (vehicle_id spdu)) = Inr valid"
      using v0 ne' by (simp add: ts)
    from receive_loop_slices [OF k1 k2 n c key lt False d' i u l' v', of gui] obtain st' where
      "receive_loop P gui num (reassembling st key (partial_entry spdu sg k c i0 t0 {i0}) t0)
              (map Some (zip (map (falcon_slice spdu sg k c) is') ts')) = Inr st'"
      "printed st' = printed st @ [(template_fragment (partial_entry spdu sg k c i0 t0 {i0}), valid)]"
      "completed_messages st' = completed_messages st + 1"
      "pending_messages st' key = None" by blast
    then show ?thesis unfolding isc ts using lt r by (simp add: partial_entry_simps)
  qed
qed

lemma map_nth_slices:
  assumes "set is \<subseteq> {0 ..< c}"
  shows "map ((!) (map f [0 ..< c])) is = map f is"
  using assms by (intro map_cong [OF refl]) auto

text \<open>
  C1.  For a Falcon signing whose primitive returns a signature \<open>sg\<close> of at most
  \<open>MAX_SIGNATURE_TOTAL_SIZE\<close> bytes, the emitted fragments carry the signature: the
  first \<open>fragment_length\<close> bytes of each \<open>signature_fragment\<close>, concatenated in index
  order, are \<open>sg\<close>.  Every slice is non-empty, lies inside the buffer of
  \<open>signature_buffer_length = length sg\<close> bytes and holds the bytes of \<open>sg\<close> at its
  offset; the first slice starts at 0, each next slice starts where the previous one
  ends, and the last one ends at \<open>length sg\<close>, so the slices are contiguous, disjoint
  and cover the buffer.  Let the fragments arrive in any order, each once: \<open>is\<close> lists
  their indices in the order of arrival, \<open>ts\<close> the receive times.  A receiver entry
  that starts value-initialised and takes them ends with every index marked and with a
  signature buffer equal to \<open>sg\<close>.  In the receive loop itself, started where the key
  of the SPDU is not pending and the expected count is not yet reached, they complete
  the SPDU once, and the verdict shown is the verifier's verdict on the buffer \<open>sg\<close>,
  with the template taken from the fragment that arrived first.
\<close>

theorem fragments_reassemble_signature:
  assumes key: "falcon_private_key v \<noteq> []"
    and sg: "sg = falcon_sign P (length (sign_calls v))
                    (bytes_of_tbsData P (tbsData (signedData (data spdu)))) (falcon_private_key v)"
    and n: "length sg \<le> unat MAX_SIGNATURE_TOTAL_SIZE"
  shows "\<exists>fragments v'. sign_message_falcon P v spdu = Inr (fragments, v')
      \<and> concat (map (\<lambda>f. take (unat (fragment_length f)) (signature_fragment f)) fragments) = sg
      \<and> (\<forall>i < length fragments.
            0 < unat (fragment_length (fragments ! i))
          \<and> unat (fragment_length (fragments ! i)) \<le> 512
          \<and> unat (signature_offset (fragments ! i)) + unat (fragment_length (fragments ! i)) \<le> length sg
          \<and> unat (signature_buffer_length (fragments ! i)) = length sg
          \<and> take (unat (fragment_length (fragments ! i))) (signature_fragment (fragments ! i))
               = take (unat (fragment_length (fragments ! i)))
                   (drop (unat (signature_offset (fragments ! i))) sg))
      \<and> (\<forall>i. Suc i < length fragments \<longrightarrow>
            unat (signature_offset (fragments ! Suc i))
              = unat (signature_offset (fragments ! i)) + unat (fragment_length (fragments ! i)))
      \<and> (fragments \<noteq> [] \<longrightarrow>
            unat (signature_offset (fragments ! 0)) = 0
          \<and> unat (signature_offset (fragments ! (length fragments - 1)))
              + unat (fragment_length (fragments ! (length fragments - 1))) = length sg)
      \<and> (\<forall>is ts. distinct is \<longrightarrow> set is = {0 ..< length fragments} \<longrightarrow>
            length ts = length is \<longrightarrow>
            (\<exists>e. update_entries PendingMessage_init (zip (map ((!) fragments) is) ts) = Inr e
               \<and> signature_buffer e = sg
               \<and> fragments_received e = replicate (length fragments) True
               \<and> complete_entry e))
      \<and> (\<forall>gui num st is ts valid.
            distinct is \<longrightarrow> set is = {0 ..< length fragments} \<longrightarrow> is \<noteq> [] \<longrightarrow>
            length ts = length is \<longrightarrow>
            pending_messages st (make_message_key (vehicle_id spdu) (sequence_number spdu)) = None \<longrightarrow>
            completed_messages st < num \<longrightarrow>
            verify_message P
              ((fragments ! hd is)
                 \<lparr> fragment_index := 0, fragment_length := 0,
                   signature_fragment := zero_bytes (unat MAX_SIGNATURE_FRAGMENT_SIZE) \<rparr>)
              sg (last ts) (uint (vehicle_id spdu)) = Inr valid \<longrightarrow>
            (\<exists>st'. receive_loop P gui num st (map Some (zip (map ((!) fragments) is) ts)) = Inr st'
               \<and> printed st' = printed st @
                    [((fragments ! hd is)
                        \<lparr> fragment_index := 0, fragment_length := 0,
                          signature_fragment := zero_bytes (unat MAX_SIGNATURE_FRAGMENT_SIZE) \<rparr>,
                      valid)]
               \<and> completed_messages st' = completed_messages st + 1
               \<and> pending_messages st'
                    (make_message_key (vehicle_id spdu) (sequence_number spdu)) = None))"
proof -
  define k where "k = unat (clamp_fragment_size (falcon_fragment_size (pqc v)) MAX_SIGNATURE_FRAGMENT_SIZE)"
  define c where "c = (length sg + k - 1) div k"
  have n': "length sg \<le> 1536" using n by (simp add: MAX_SIGNATURE_TOTAL_SIZE_def)
  have k1: "0 < k" and k2: "k \<le> 512"
    using clamp_fragment_size_bounds [of "falcon_fragment_size (pqc v)"] by (simp_all add: k_def)
  let ?frs = "map (falcon_slice spdu sg k c) [0 ..< c]"
  have res: "sign_message_falcon P v spdu =
     Inr (?frs,
          v \<lparr> sign_calls := sign_calls v @
                 [Falcon_sign_call (bytes_of_tbsData P (tbsData (signedData (data spdu))))
                    (falcon_private_key v)] \<rparr>)"
    by (rule sign_message_falcon_result [OF key sg n' k_def c_def])
  note f = falcon_slice_fields [OF k1 k2 n' c_def]
  have cov: "length sg \<le> c * k" "c * k < length sg + k"
    unfolding c_def using ceiling_covers [OF k1] by simp_all
  have len: "length ?frs = c" by simp
  have nth: "?frs ! i = falcon_slice spdu sg k c i" if "i < c" for i using that by simp
  have slice: "take (unat (fragment_length (falcon_slice spdu sg k c i)))
                 (signature_fragment (falcon_slice spdu sg k c i)) = take k (drop (i * k) sg)"
    if i: "i < c" for i
    unfolding f(5) [OF i] f(6) [OF i] by (simp add: min_def)
  have 1: "concat (map (\<lambda>f. take (unat (fragment_length f)) (signature_fragment f)) ?frs) = sg"
  proof -
    have m: "map (\<lambda>f. take (unat (fragment_length f)) (signature_fragment f)) ?frs
        = map (\<lambda>i. take k (drop (i * k) sg)) [0 ..< c]"
      using slice by (simp add: comp_def)
    show ?thesis unfolding m concat_slices using cov by simp
  qed
  have 2: "0 < unat (fragment_length (?frs ! i))
          \<and> unat (fragment_length (?frs ! i)) \<le> 512
          \<and> unat (signature_offset (?frs ! i)) + unat (fragment_length (?frs ! i)) \<le> length sg
          \<and> unat (signature_buffer_length (?frs ! i)) = length sg
          \<and> take (unat (fragment_length (?frs ! i))) (signature_fragment (?frs ! i))
               = take (unat (fragment_length (?frs ! i)))
                   (drop (unat (signature_offset (?frs ! i))) sg)"
    if "i < length ?frs" for i
  proof -
    from that have i: "i < c" by simp
    have ik: "i * k < length sg" by (rule f(7) [OF i])
    have s: "take k (drop (i * k) sg) = take (min k (length sg - i * k)) (drop (i * k) sg)"
      by (simp add: min_def)
    have a: "0 < min k (length sg - i * k)" "min k (length sg - i * k) \<le> 512"
      using ik k1 k2 by simp_all
    have b: "i * k + min k (length sg - i * k) \<le> length sg" using ik by linarith
    have t: "take (unat (fragment_length (falcon_slice spdu sg k c i)))
               (signature_fragment (falcon_slice spdu sg k c i))
           = take (unat (fragment_length (falcon_slice spdu sg k c i)))
               (drop (unat (signature_offset (falcon_slice spdu sg k c i))) sg)"
      unfolding slice [OF i] unfolding f(4) [OF i] f(5) [OF i] by (rule s)
    show ?thesis
      unfolding nth [OF i] using a b t f(3) [OF i] f(4) [OF i] f(5) [OF i] by simp
  qed
  have 3: "unat (signature_offset (?frs ! Suc i))
              = unat (signature_offset (?frs ! i)) + unat (fragment_length (?frs ! i))"
    if "Suc i < length ?frs" for i
  proof -
    from that have s: "Suc i < c" and i: "i < c" by simp_all
    have "Suc i * k < length sg" by (rule f(7) [OF s])
    then have "min k (length sg - i * k) = k" by simp
    then show ?thesis
      unfolding nth [OF i] nth [OF s] f(4) [OF i] f(4) [OF s] f(5) [OF i] by simp
  qed
  have 4: "unat (signature_offset (?frs ! 0)) = 0
          \<and> unat (signature_offset (?frs ! (length ?frs - 1)))
              + unat (fragment_length (?frs ! (length ?frs - 1))) = length sg"
    if "?frs \<noteq> []"
  proof -
    from that have z: "0 < c" by simp
    then have l: "c - 1 < c" by simp
    obtain m where m: "c = Suc m" using z by (cases c) auto
    have a: "m * k < length sg" using f(7) [OF l] by (simp add: m)
    have b: "length sg \<le> m * k + k" using cov(1) by (simp add: m)
    have "m * k + min k (length sg - m * k) = length sg" using a b by simp
    then show ?thesis
      unfolding len nth [OF z] nth [OF l] f(4) [OF z] f(4) [OF l] f(5) [OF l]
      by (simp add: m)
  qed
  have mp: "map ((!) ?frs) is = map (falcon_slice spdu sg k c) is" if "set is = {0 ..< length ?frs}" for "is"
    using that by (intro map_nth_slices) simp
  have 5: "\<exists>e. update_entries PendingMessage_init (zip (map ((!) ?frs) is) ts) = Inr e
               \<and> signature_buffer e = sg
               \<and> fragments_received e = replicate (length ?frs) True
               \<and> complete_entry e"
    if d: "distinct is" and s: "set is = {0 ..< length ?frs}" and l: "length ts = length is"
    for "is" ts
  proof -
    from s have s': "set is = {0 ..< c}" by simp
    from update_entries_all_slices [OF k1 k2 n' c_def d s' l, of spdu]
    obtain e where "update_entries PendingMessage_init (zip (map (falcon_slice spdu sg k c) is) ts) = Inr e"
      "signature_buffer e = sg" "fragments_received e = replicate c True" by blast
    then show ?thesis unfolding mp [OF s] by (auto simp: complete_entry_def list_all_iff)
  qed
  have 6: "\<exists>st'. receive_loop P gui num st (map Some (zip (map ((!) ?frs) is) ts)) = Inr st'
               \<and> printed st' = printed st @
                    [((?frs ! hd is)
                        \<lparr> fragment_index := 0, fragment_length := 0,
                          signature_fragment := zero_bytes (unat MAX_SIGNATURE_FRAGMENT_SIZE) \<rparr>,
                      valid)]
               \<and> completed_messages st' = completed_messages st + 1
               \<and> pending_messages st'
                    (make_message_key (vehicle_id spdu) (sequence_number spdu)) = None"
    if d: "distinct is" and s: "set is = {0 ..< length ?frs}" and ne: "is \<noteq> []"
      and l: "length ts = length is"
      and none: "pending_messages st (make_message_key (vehicle_id spdu) (sequence_number spdu)) = None"
      and lt: "completed_messages st < num"
      and v: "verify_message P
              ((?frs ! hd is)
                 \<lparr> fragment_index := 0, fragment_length := 0,
                   signature_fragment := zero_bytes (unat MAX_SIGNATURE_FRAGMENT_SIZE) \<rparr>)
              sg (last ts) (uint (vehicle_id spdu)) = Inr valid"
    for gui num st "is" ts valid
  proof -
    from s have s': "set is = {0 ..< c}" by simp
    from ne s' have z: "hd is < c" by (cases "is") auto
    show ?thesis
      unfolding nth [OF z] mp [OF s]
      by (rule receive_loop_all_slices [OF k1 k2 n' c_def refl lt none ne d s' l v [unfolded nth [OF z]]])
  qed
  have c2: "\<forall>i < length ?frs.
            0 < unat (fragment_length (?frs ! i))
          \<and> unat (fragment_length (?frs ! i)) \<le> 512
          \<and> unat (signature_offset (?frs ! i)) + unat (fragment_length (?frs ! i)) \<le> length sg
          \<and> unat (signature_buffer_length (?frs ! i)) = length sg
          \<and> take (unat (fragment_length (?frs ! i))) (signature_fragment (?frs ! i))
               = take (unat (fragment_length (?frs ! i)))
                   (drop (unat (signature_offset (?frs ! i))) sg)"
    by (intro allI impI) (rule 2)
  have c3: "\<forall>i. Suc i < length ?frs \<longrightarrow>
            unat (signature_offset (?frs ! Suc i))
              = unat (signature_offset (?frs ! i)) + unat (fragment_length (?frs ! i))"
    by (intro allI impI) (rule 3)
  have c4: "?frs \<noteq> [] \<longrightarrow>
            unat (signature_offset (?frs ! 0)) = 0
          \<and> unat (signature_offset (?frs ! (length ?frs - 1)))
              + unat (fragment_length (?frs ! (length ?frs - 1))) = length sg"
    by (intro impI) (rule 4)
  have c5: "\<forall>is ts. distinct is \<longrightarrow> set is = {0 ..< length ?frs} \<longrightarrow>
            length ts = length is \<longrightarrow>
            (\<exists>e. update_entries PendingMessage_init (zip (map ((!) ?frs) is) ts) = Inr e
               \<and> signature_buffer e = sg
               \<and> fragments_received e = replicate (length ?frs) True
               \<and> complete_entry e)"
    by (intro allI impI) (rule 5)
  have c6: "\<forall>gui num st is ts valid.
            distinct is \<longrightarrow> set is = {0 ..< length ?frs} \<longrightarrow> is \<noteq> [] \<longrightarrow>
            length ts = length is \<longrightarrow>
            pending_messages st (make_message_key (vehicle_id spdu) (sequence_number spdu)) = None \<longrightarrow>
            completed_messages st < num \<longrightarrow>
            verify_message P
              ((?frs ! hd is)
                 \<lparr> fragment_index := 0, fragment_length := 0,
                   signature_fragment := zero_bytes (unat MAX_SIGNATURE_FRAGMENT_SIZE) \<rparr>)
              sg (last ts) (uint (vehicle_id spdu)) = Inr valid \<longrightarrow>
            (\<exists>st'. receive_loop P gui num st (map Some (zip (map ((!) ?frs) is) ts)) = Inr st'
               \<and> printed st' = printed st @
                    [((?frs ! hd is)
                        \<lparr> fragment_index := 0, fragment_length := 0,
                          signature_fragment := zero_bytes (unat MAX_SIGNATURE_FRAGMENT_SIZE) \<rparr>,
                      valid)]
               \<and> completed_messages st' = completed_messages st + 1
               \<and> pending_messages st'
                    (make_message_key (vehicle_id spdu) (sequence_number spdu)) = None)"
    by (intro allI impI) (rule 6)
  show ?thesis
    apply (rule exI [of _ ?frs])
    apply (rule exI)
    apply (rule conjI [OF res])
    apply (rule conjI [OF 1])
    apply (rule conjI [OF c2])
    apply (rule conjI [OF c3])
    apply (rule conjI [OF c4])
    apply (rule conjI [OF c5])
    apply (rule c6)
    done
qed


theorem fragments_reassemble_signature_witness:
  "falcon_private_key toy_vehicle \<noteq> []
   \<and> length [0, 3, 4 :: byte] \<le> unat MAX_SIGNATURE_TOTAL_SIZE
   \<and> (\<exists>fragments v' e st'.
         sign_message_falcon toy_primitives toy_vehicle spdu_fragment_init = Inr (fragments, v')
       \<and> length fragments = 2
       \<and> concat (map (\<lambda>f. take (unat (fragment_length f)) (signature_fragment f)) fragments)
            = [0, 3, 4]
       \<and> update_entries PendingMessage_init [(fragments ! 1, 10), (fragments ! 0, 11)] = Inr e
       \<and> signature_buffer e = [0, 3, 4]
       \<and> complete_entry e
       \<and> receive_loop toy_primitives False 1 receiver_init
            [Some (fragments ! 1, 10), Some (fragments ! 0, 11)] = Inr st'
       \<and> completed_messages st' = 1)"
proof -
  have key: "falcon_private_key toy_vehicle \<noteq> []" by (simp add: toy_vehicle_def)
  have sg: "[0, 3, 4] = falcon_sign toy_primitives (length (sign_calls toy_vehicle))
      (bytes_of_tbsData toy_primitives (tbsData (signedData (data spdu_fragment_init))))
      (falcon_private_key toy_vehicle)"
    by (simp add: toy_primitives_def toy_vehicle_def spdu_fragment_init_def zero_data_def)
  have n: "length [0, 3, 4 :: byte] \<le> unat MAX_SIGNATURE_TOTAL_SIZE"
    by (simp add: MAX_SIGNATURE_TOTAL_SIZE_def)
  have fs: "2 = unat (clamp_fragment_size (falcon_fragment_size (pqc toy_vehicle)) MAX_SIGNATURE_FRAGMENT_SIZE)"
    by (simp add: toy_vehicle_def clamp_fragment_size_def MAX_SIGNATURE_FRAGMENT_SIZE_def)
  have cn: "2 = (length [0, 3, 4 :: byte] + 2 - 1) div 2" by simp
  from fragments_reassemble_signature [OF key sg n]
  obtain fragments v' where
    r: "sign_message_falcon toy_primitives toy_vehicle spdu_fragment_init = Inr (fragments, v')"
    and c: "concat (map (\<lambda>f. take (unat (fragment_length f)) (signature_fragment f)) fragments)
            = [0, 3, 4]"
    and a: "\<forall>is ts. distinct is \<longrightarrow> set is = {0 ..< length fragments} \<longrightarrow>
            length ts = length is \<longrightarrow>
            (\<exists>e. update_entries PendingMessage_init (zip (map ((!) fragments) is) ts) = Inr e
               \<and> signature_buffer e = [0, 3, 4]
               \<and> fragments_received e = replicate (length fragments) True
               \<and> complete_entry e)"
    and b: "\<forall>gui num st is ts valid.
            distinct is \<longrightarrow> set is = {0 ..< length fragments} \<longrightarrow> is \<noteq> [] \<longrightarrow>
            length ts = length is \<longrightarrow>
            pending_messages st (make_message_key (vehicle_id spdu_fragment_init)
               (sequence_number spdu_fragment_init)) = None \<longrightarrow>
            completed_messages st < num \<longrightarrow>
            verify_message toy_primitives
              ((fragments ! hd is)
                 \<lparr> fragment_index := 0, fragment_length := 0,
                   signature_fragment := zero_bytes (unat MAX_SIGNATURE_FRAGMENT_SIZE) \<rparr>)
              [0, 3, 4] (last ts) (uint (vehicle_id spdu_fragment_init)) = Inr valid \<longrightarrow>
            (\<exists>st'. receive_loop toy_primitives gui num st (map Some (zip (map ((!) fragments) is) ts)) = Inr st'
               \<and> printed st' = printed st @
                    [((fragments ! hd is)
                        \<lparr> fragment_index := 0, fragment_length := 0,
                          signature_fragment := zero_bytes (unat MAX_SIGNATURE_FRAGMENT_SIZE) \<rparr>,
                      valid)]
               \<and> completed_messages st' = completed_messages st + 1
               \<and> pending_messages st'
                    (make_message_key (vehicle_id spdu_fragment_init)
                       (sequence_number spdu_fragment_init)) = None)"
    by blast
  have "sign_message_falcon toy_primitives toy_vehicle spdu_fragment_init
      = Inr (map (falcon_slice spdu_fragment_init [0, 3, 4] 2 2) [0 ..< 2],
             toy_vehicle \<lparr> sign_calls := sign_calls toy_vehicle @
                 [Falcon_sign_call (bytes_of_tbsData toy_primitives (tbsData (signedData (data spdu_fragment_init))))
                    (falcon_private_key toy_vehicle)] \<rparr>)"
    by (rule sign_message_falcon_result [OF key sg _ fs cn]) simp
  with r have lf: "length fragments = 2" by auto
  let ?is = "[1, 0 :: nat]"
  let ?ts = "[10, 11 :: timestamp]"
  have d: "distinct ?is" by simp
  have s: "set ?is = {0 ..< length fragments}" unfolding lf by auto
  have z: "zip (map ((!) fragments) ?is) ?ts = [(fragments ! 1, 10), (fragments ! 0, 11)]"
    by simp
  have lt: "length ?ts = length ?is" by simp
  have "\<exists>e. update_entries PendingMessage_init (zip (map ((!) fragments) ?is) ?ts) = Inr e
               \<and> signature_buffer e = [0, 3, 4]
               \<and> fragments_received e = replicate (length fragments) True
               \<and> complete_entry e"
    by (rule a [rule_format, OF d s lt])
  then obtain e where
    e: "update_entries PendingMessage_init [(fragments ! 1, 10), (fragments ! 0, 11)] = Inr e"
    "signature_buffer e = [0, 3, 4]" "complete_entry e"
    unfolding z by blast
  have m: "fragments ! 1 \<in> set fragments" using lf by simp
  from sign_message_falcon_Inr [OF r] m
  have dd: "data (fragments ! 1) = data spdu_fragment_init" by blast
  then have dd': "data (fragments ! Suc 0) = data spdu_fragment_init" by simp
  have ts0: "timestamp (headerInfo (tbsData (signedData (data spdu_fragment_init)))) = 0"
    by (simp add: spdu_fragment_init_def zero_data_def)
  let ?T = "(fragments ! hd ?is)
                 \<lparr> fragment_index := 0, fragment_length := 0,
                   signature_fragment := zero_bytes (unat MAX_SIGNATURE_FRAGMENT_SIZE) \<rparr>"
  have k: "load_key toy_primitives (uint (vehicle_id spdu_fragment_init)) False = Some [2]"
    "load_key toy_primitives (uint (vehicle_id spdu_fragment_init)) True = Some [1]"
    by (simp_all add: toy_primitives_def)
  obtain sig_ok where so: "sig_result toy_primitives ?T [0, 3, 4]
      (uint (vehicle_id spdu_fragment_init)) [2] = Inr sig_ok"
    by (cases "signature_scheme ?T = scheme_tag ECDSA")
       (simp_all add: sig_result_def toy_primitives_def)
  have v: "verify_message toy_primitives ?T [0, 3, 4] (last ?ts) (uint (vehicle_id spdu_fragment_init))
      = Inr (cert_result toy_primitives ?T [1] \<and> sig_ok
             \<and> sint (last ?ts) - sint (timestamp (headerInfo (tbsData (signedData (data ?T)))))
                  < 30000 * 1000)"
    by (rule verify_message_loaded [OF k so]) (simp_all add: dd dd' ts0)
  have pn: "pending_messages receiver_init (make_message_key (vehicle_id spdu_fragment_init)
               (sequence_number spdu_fragment_init)) = None"
    and cl: "completed_messages receiver_init < 1"
    by (simp_all add: receiver_init_def)
  have ne: "?is \<noteq> []" by simp
  from b [rule_format, OF d s ne lt pn cl v] obtain st' where
    "receive_loop toy_primitives False 1 receiver_init (map Some (zip (map ((!) fragments) ?is) ?ts)) = Inr st'"
    "completed_messages st' = completed_messages receiver_init + 1"
    by blast
  then have "receive_loop toy_primitives False 1 receiver_init
       [Some (fragments ! 1, 10), Some (fragments ! 0, 11)] = Inr st'"
    "completed_messages st' = 1"
    by (simp_all add: receiver_init_def)
  with key n r lf c e show ?thesis by blast
qed

end
